theory Spec2Isabelle
  imports Complex_Main "HOL-Library.AList" "HOL-Library.DAList"
begin

section \<open>Dates and durations\<close>

text \<open>
  The program computes with Python's naive \<open>datetime\<close> and \<open>timedelta\<close>. A
  \<open>datetime\<close> is modelled by the number of microseconds since 0001-01-01T00:00:00
  (the smallest value of the type), a \<open>timedelta\<close> by a number of microseconds.
  Python's \<open>datetime\<close> is bounded: the largest value is 9999-12-31T23:59:59.999999
  and an addition that leaves the range raises \<open>OverflowError\<close>.
\<close>

type_synonym datetime = int
type_synonym timedelta = int

datatype py_error = ValueError | OverflowError | KeyError | IndexError | RuntimeError | NameError

definition US_PER_DAY :: int where
  "US_PER_DAY = 86400000000"

definition MAX_DATETIME :: datetime where
  "MAX_DATETIME = 3652059 * 86400000000 - 1"

definition timedelta_days :: "int \<Rightarrow> timedelta" where
  \<comment> \<open>\<open>timedelta(days=n)\<close> for an integer \<open>n\<close> within the range of the type\<close>
  "timedelta_days n = n * US_PER_DAY"

definition dt_add :: "datetime \<Rightarrow> timedelta \<Rightarrow> py_error + datetime" where
  \<comment> \<open>\<open>date + delta\<close>\<close>
  "dt_add d td = (if 0 \<le> d + td \<and> d + td \<le> MAX_DATETIME then Inr (d + td) else Inl OverflowError)"

definition weekday :: "datetime \<Rightarrow> int" where
  \<comment> \<open>\<open>date.weekday()\<close>: 0001-01-01 is a Monday (0), Sunday is 6\<close>
  "weekday d = (d div US_PER_DAY) mod 7"

section \<open>production_params.py: BusinessCalendar\<close>

record BusinessCalendar =
  cal_name :: string
  work_days :: "int list"
  holidays :: "datetime set"
  vacations :: "(datetime \<times> datetime) list"

definition in_any_interval :: "(datetime \<times> datetime) list \<Rightarrow> datetime \<Rightarrow> bool" where
  \<comment> \<open>\<open>any(start <= date <= end for start, end in vacations)\<close>\<close>
  "in_any_interval vs d = list_ex (\<lambda>(start, end). start \<le> d \<and> d \<le> end) vs"

definition is_workday :: "BusinessCalendar \<Rightarrow> datetime \<Rightarrow> bool" where
  "is_workday cal d =
     (weekday d \<in> set (work_days cal) \<and> d \<notin> holidays cal \<and> \<not> in_any_interval (vacations cal) d)"

function next_workday_loop :: "BusinessCalendar \<Rightarrow> datetime \<Rightarrow> py_error + datetime" where
  "next_workday_loop cal next_day =
     (if is_workday cal next_day then Inr next_day
      else if 0 \<le> next_day + timedelta_days 1 \<and> next_day + timedelta_days 1 \<le> MAX_DATETIME
           then next_workday_loop cal (next_day + timedelta_days 1)
           else Inl OverflowError)"
  by pat_completeness auto
termination
  by (relation "measure (\<lambda>(cal, d). nat (MAX_DATETIME - d))")
     (auto simp: timedelta_days_def US_PER_DAY_def)

declare next_workday_loop.simps [simp del]

text \<open>
  \<open>production_params.py\<close> has no import at module level. The name \<open>timedelta\<close>, which
  \<open>next_workday\<close> reads in its first statement, is bound by line 98 only
  (\<open>from datetime import datetime, timedelta\<close>), in the block under
  \<open>if __name__ == "__main__"\<close>. In the module as \<open>resource_pool.py\<close>,
  \<open>simulator.py\<close> and \<open>app.py\<close> import it the name is unbound, and reading it raises
  \<open>NameError\<close>; it is bound when the file runs as a script. \<open>module_load\<close> says
  which of the two it is. The loop is reached only where the name is bound.
\<close>

datatype module_load = Imported | RunAsScript

definition timedelta_global :: "module_load \<Rightarrow> py_error + (int \<Rightarrow> timedelta)" where
  \<comment> \<open>the lookup of the global name \<open>timedelta\<close> in \<open>production_params.py\<close>\<close>
  "timedelta_global m = (case m of Imported \<Rightarrow> Inl NameError | RunAsScript \<Rightarrow> Inr timedelta_days)"

definition next_workday :: "module_load \<Rightarrow> BusinessCalendar \<Rightarrow> datetime \<Rightarrow> py_error + datetime" where
  "next_workday m cal d =
     (case timedelta_global m of
        Inl e \<Rightarrow> Inl e
      | Inr td \<Rightarrow>
          (case dt_add d (td 1) of
             Inl e \<Rightarrow> Inl e
           | Inr next_day \<Rightarrow> next_workday_loop cal next_day))"

section \<open>resource_pool.py: Resource\<close>

text \<open>
  Hours are Python integers (the bids of the workflow definitions). The calendar field
  is a reference to the pool's calendar object, which nothing in the program mutates, so
  the record holds its value. \<open>assigned_hours\<close> is a dictionary that is only read
  by key, hence a map.
\<close>

record Resource =
  res_name :: string
  resource_type :: string
  calendar :: BusinessCalendar
  assigned_hours :: "datetime \<rightharpoonup> int"
  res_vacations :: "(datetime \<times> datetime) list"

definition Resource_init :: "string \<Rightarrow> string \<Rightarrow> BusinessCalendar \<Rightarrow> Resource" where
  \<comment> \<open>\<open>Resource.__init__\<close>\<close>
  "Resource_init name rtype cal =
     \<lparr>res_name = name, resource_type = rtype, calendar = cal,
      assigned_hours = Map.empty, res_vacations = []\<rparr>"

definition add_vacation :: "Resource \<Rightarrow> datetime \<Rightarrow> datetime \<Rightarrow> Resource" where
  "add_vacation r start_date end_date =
     r\<lparr>res_vacations := res_vacations r @ [(start_date, end_date)]\<rparr>"

definition current_load :: "Resource \<Rightarrow> datetime \<Rightarrow> int" where
  \<comment> \<open>\<open>self.assigned_hours.get(date, 0)\<close>\<close>
  "current_load r d = (case assigned_hours r d of None \<Rightarrow> 0 | Some h \<Rightarrow> h)"

definition is_available :: "Resource \<Rightarrow> datetime \<Rightarrow> int \<Rightarrow> bool" where
  "is_available r d required_hours =
     (if \<not> is_workday (calendar r) d then False
      else if in_any_interval (res_vacations r) d then False
      else current_load r d + required_hours \<le> 8)"

text \<open>
  \<open>assign_work\<close> mutates the resource or raises. The model returns the outcome
  together with the resource as it is after the call, so that what an exception leaves
  behind is part of the result.
\<close>

definition assign_work :: "Resource \<Rightarrow> datetime \<Rightarrow> int \<Rightarrow> (py_error + unit) \<times> Resource" where
  "assign_work r d hours =
     (if \<not> is_available r d hours then (Inl ValueError, r)
      else (Inr (), r\<lparr>assigned_hours := (assigned_hours r)(d \<mapsto> current_load r d + hours)\<rparr>))"

text \<open>The resource after a sequence of \<open>assign_work\<close> calls, each given by its date and hours.\<close>

fun assign_work_calls :: "Resource \<Rightarrow> (datetime \<times> int) list \<Rightarrow> Resource" where
  "assign_work_calls r [] = r"
| "assign_work_calls r ((d, hours) # calls) = assign_work_calls (snd (assign_work r d hours)) calls"

section \<open>resource_pool.py: ResourcePool\<close>

text \<open>
  The pool holds every \<open>Resource\<close> object twice, in \<open>resources\<close> (by id) and in
  a bucket of \<open>resources_by_type\<close>, and \<open>allocate_resource\<close> mutates the object
  it finds through the bucket while \<open>get_utilization\<close> reads it through the id index.
  The model therefore keeps the objects in a store (\<open>heap\<close>, a reference is a position
  in it) and the two indices hold references. Both indices are Python dictionaries, which
  keep their keys in insertion order: association lists updated by \<open>AList.update\<close>.
\<close>

type_synonym ref = nat

record ResourcePool =
  pool_calendar :: BusinessCalendar
  heap :: "Resource list"
  resources :: "(string \<times> ref) list"
  resources_by_type :: "(string \<times> ref list) list"

definition ResourcePool_init :: "BusinessCalendar \<Rightarrow> ResourcePool" where
  \<comment> \<open>\<open>ResourcePool.__init__\<close>\<close>
  "ResourcePool_init cal =
     \<lparr>pool_calendar = cal, heap = [], resources = [], resources_by_type = []\<rparr>"

definition bucket :: "ResourcePool \<Rightarrow> string \<Rightarrow> ref list" where
  \<comment> \<open>\<open>self.resources_by_type.get(resource_type, [])\<close>\<close>
  "bucket pool rtype = (case map_of (resources_by_type pool) rtype of None \<Rightarrow> [] | Some b \<Rightarrow> b)"

definition add_resource :: "ResourcePool \<Rightarrow> string \<Rightarrow> string \<Rightarrow> string \<Rightarrow> ref \<times> ResourcePool" where
  \<comment> \<open>returns the new object and the pool after the call; the function has no \<open>raise\<close>\<close>
  "add_resource pool resource_id name rtype =
     (let resource = Resource_init name rtype (pool_calendar pool);
          r = length (heap pool);
          pool1 = pool\<lparr>heap := heap pool @ [resource],
                       resources := AList.update resource_id r (resources pool)\<rparr>;
          pool2 = (if map_of (resources_by_type pool1) rtype = None
                   then pool1\<lparr>resources_by_type := AList.update rtype [] (resources_by_type pool1)\<rparr>
                   else pool1)
      in (r, pool2\<lparr>resources_by_type :=
                    AList.update rtype (bucket pool2 rtype @ [r]) (resources_by_type pool2)\<rparr>))"

text \<open>
  The loop of \<open>allocate_resource\<close> over a bucket. \<open>assign_work\<close> checks the
  availability again and may raise; that branch is kept as the source has it.
\<close>

fun allocate_scan :: "Resource list \<Rightarrow> ref list \<Rightarrow> datetime \<Rightarrow> int \<Rightarrow> (py_error + ref option) \<times> Resource list" where
  "allocate_scan h [] d hours = (Inr None, h)"
| "allocate_scan h (r # rs) d hours =
     (if is_available (h ! r) d hours
      then (case assign_work (h ! r) d hours of
              (Inl e, res) \<Rightarrow> (Inl e, h[r := res])
            | (Inr u, res) \<Rightarrow> (Inr (Some r), h[r := res]))
      else allocate_scan h rs d hours)"

definition allocate_resource :: "ResourcePool \<Rightarrow> string \<Rightarrow> datetime \<Rightarrow> int \<Rightarrow> (py_error + ref option) \<times> ResourcePool" where
  "allocate_resource pool rtype d hours =
     (case allocate_scan (heap pool) (bucket pool rtype) d hours of
        (res, h) \<Rightarrow> (res, pool\<lparr>heap := h\<rparr>))"

definition daily_assigned :: "ResourcePool \<Rightarrow> datetime \<Rightarrow> int" where
  \<comment> \<open>the inner loop of \<open>get_utilization\<close> over \<open>self.resources.values()\<close>\<close>
  "daily_assigned pool current =
     fold (\<lambda>r acc. acc + current_load (heap pool ! r) current) (map snd (resources pool)) 0"

definition daily_capacity :: "ResourcePool \<Rightarrow> int" where
  "daily_capacity pool = int (length (bucket pool ''quota'')) * 8"

function get_utilization_loop :: "ResourcePool \<Rightarrow> datetime \<Rightarrow> datetime \<Rightarrow> int \<Rightarrow> int \<Rightarrow> py_error + int \<times> int" where
  "get_utilization_loop pool current end_date total_capacity total_assigned =
     (if current \<le> end_date then
        (let (cap, asg) =
               (if is_workday (pool_calendar pool) current
                then (total_capacity + daily_capacity pool, total_assigned + daily_assigned pool current)
                else (total_capacity, total_assigned))
         in if 0 \<le> current + timedelta_days 1 \<and> current + timedelta_days 1 \<le> MAX_DATETIME
            then get_utilization_loop pool (current + timedelta_days 1) end_date cap asg
            else Inl OverflowError)
      else Inr (total_capacity, total_assigned))"
  by pat_completeness auto
termination
  by (relation "measure (\<lambda>(pool, current, end_date, c, a). nat (end_date - current + 1))")
     (auto simp: timedelta_days_def US_PER_DAY_def)

declare get_utilization_loop.simps [simp del]

text \<open>
  Python's \<open>/\<close> on two integers is the quotient as a float; the model keeps the
  exact quotient as a rational.
\<close>

definition get_utilization :: "ResourcePool \<Rightarrow> datetime \<Rightarrow> datetime \<Rightarrow> py_error + rat" where
  "get_utilization pool start_date end_date =
     (case get_utilization_loop pool start_date end_date 0 0 of
        Inl e \<Rightarrow> Inl e
      | Inr (total_capacity, total_assigned) \<Rightarrow>
          Inr (if total_capacity \<noteq> 0 then of_int total_assigned / of_int total_capacity else 0))"

subsection \<open>Properties of pool states\<close>

text \<open>
  \<open>index_inv\<close>: the resources of the type index are those of the id index.
  \<open>pool_wf\<close>: what holds of every pool the program builds: references point into the
  store, dictionary keys are unique, and no object stands twice in the type index or in
  the id index.
\<close>

definition type_index_refs :: "ResourcePool \<Rightarrow> ref list" where
  "type_index_refs pool = concat (map snd (resources_by_type pool))"

definition id_index_refs :: "ResourcePool \<Rightarrow> ref list" where
  "id_index_refs pool = map snd (resources pool)"

definition index_inv :: "ResourcePool \<Rightarrow> bool" where
  "index_inv pool = (set (id_index_refs pool) = set (type_index_refs pool))"

definition pool_wf :: "ResourcePool \<Rightarrow> bool" where
  "pool_wf pool =
     (list_all (\<lambda>r. r < length (heap pool)) (id_index_refs pool) \<and>
      list_all (\<lambda>r. r < length (heap pool)) (type_index_refs pool) \<and>
      distinct (map fst (resources pool)) \<and>
      distinct (map fst (resources_by_type pool)) \<and>
      distinct (id_index_refs pool) \<and>
      distinct (type_index_refs pool))"

text \<open>The dates \<open>get_utilization\<close> visits: \<open>start\<close>, one day later, and so on up to \<open>end\<close>.\<close>

function days_from :: "datetime \<Rightarrow> datetime \<Rightarrow> datetime list" where
  "days_from current end_date =
     (if current \<le> end_date then current # days_from (current + timedelta_days 1) end_date else [])"
  by pat_completeness auto
termination
  by (relation "measure (\<lambda>(current, end_date). nat (end_date - current + 1))")
     (auto simp: timedelta_days_def US_PER_DAY_def)

declare days_from.simps [simp del]

definition workdays_in_range :: "BusinessCalendar \<Rightarrow> datetime \<Rightarrow> datetime \<Rightarrow> datetime list" where
  "workdays_in_range cal start_date end_date = filter (is_workday cal) (days_from start_date end_date)"

section \<open>production_params.py: ProductionParameters and WorkflowDefinition\<close>

text \<open>
  A stage definition is a dictionary. The engine reads three kinds of entries: the bid
  under \<open>"default"\<close>, the bids under the names of complexity levels, and the resource
  type; a missing \<open>"default"\<close> or \<open>"resource_type"\<close> is a \<open>KeyError\<close> where it is
  read. The flags (\<open>review\<close>, \<open>approval_required\<close>) are never read. Bids are integers.
\<close>

record stage_def =
  default_bid :: "int option"
  level_bids :: "(string \<times> int) list"
  stage_resource_type :: "string option"

text \<open>
  \<open>stages\<close> is a dictionary in insertion order, so its keys are distinct: an association
  list with unique keys. \<open>stage_order\<close> is \<open>list(stages.keys())\<close>, set once by the
  constructor.
\<close>

record WorkflowDefinition =
  stages :: "(string, stage_def) alist"

definition stage_order :: "WorkflowDefinition \<Rightarrow> string list" where
  "stage_order workflow = map fst (DAList.impl_of (stages workflow))"

fun index_of :: "'a list \<Rightarrow> 'a \<Rightarrow> nat option" where
  \<comment> \<open>\<open>list.index\<close>: the first position of the value, \<open>None\<close> where Python raises \<open>ValueError\<close>\<close>
  "index_of [] y = None"
| "index_of (x # xs) y = (if x = y then Some 0 else map_option Suc (index_of xs y))"

definition get_next_stage :: "WorkflowDefinition \<Rightarrow> string \<Rightarrow> py_error + string option" where
  "get_next_stage workflow current_stage =
     (case index_of (stage_order workflow) current_stage of
        None \<Rightarrow> Inl ValueError
      | Some idx \<Rightarrow>
          if int idx < int (length (stage_order workflow)) - 1
          then Inr (Some (stage_order workflow ! (idx + 1)))
          else Inr None)"

record ProductionParameters =
  creative_calendar :: "(string \<times> datetime) list"
  delivery_calendar :: "(string \<times> datetime) list"
  complexity_matrix :: "(string \<times> string \<times> (string \<times> int) list) list"
  workflow_definitions :: "(string \<times> WorkflowDefinition) list"
  resource_calendars :: "(string \<times> BusinessCalendar) list"

definition get_stage_bid :: "ProductionParameters \<Rightarrow> string \<Rightarrow> string \<Rightarrow> string \<Rightarrow> py_error + int" where
  "get_stage_bid params workflow_type stage complexity =
     (case map_of (workflow_definitions params) workflow_type of
        None \<Rightarrow> Inr 0
      | Some workflow \<Rightarrow>
          (case DAList.lookup (stages workflow) stage of
             None \<Rightarrow> Inr 0
           | Some sd \<Rightarrow>
               (case default_bid sd of
                  None \<Rightarrow> Inl KeyError
                | Some dflt \<Rightarrow>
                    Inr (case map_of (level_bids sd) complexity of None \<Rightarrow> dflt | Some b \<Rightarrow> b))))"

section \<open>simulator.py: simulated time\<close>

text \<open>
  The simulation clock \<open>env.now\<close> of the simpy environment is a Python number: it starts
  at 0 and grows by the delays of the timeouts, one of which is a float (the seconds up
  to the creative input date). The model keeps it as a rational and computes with it
  exactly. \<open>timedelta(days=x)\<close> rounds to the microsecond, half to even, and raises
  \<open>OverflowError\<close> beyond 999999999 days.
\<close>

definition py_round :: "rat \<Rightarrow> int" where
  "py_round x =
     (let f = \<lfloor>x\<rfloor>; r = x - of_int f
      in if r < 1 / 2 then f else if 1 / 2 < r then f + 1 else if even f then f else f + 1)"

definition timedelta_of_days :: "rat \<Rightarrow> py_error + timedelta" where
  "timedelta_of_days x =
     (let us = py_round (x * of_int US_PER_DAY)
      in if - 999999999 * US_PER_DAY \<le> us \<and> us < 1000000000 * US_PER_DAY then Inr us
         else Inl OverflowError)"

definition total_seconds :: "timedelta \<Rightarrow> rat" where
  "total_seconds td = of_int td / 1000000"

definition sim_date :: "datetime \<Rightarrow> rat \<Rightarrow> py_error + datetime" where
  \<comment> \<open>\<open>self.current_date + timedelta(days=self.env.now)\<close>\<close>
  "sim_date current_date now =
     (case timedelta_of_days now of Inl e \<Rightarrow> Inl e | Inr td \<Rightarrow> dt_add current_date td)"

section \<open>simulator.py: ProductionEvent and the conflict resolver\<close>

record ProductionEvent =
  item_id :: string
  stage :: string
  start_time :: datetime
  end_time :: datetime
  resource :: string
  duration :: rat

definition ProductionEvent_init :: "string \<Rightarrow> string \<Rightarrow> datetime \<Rightarrow> datetime \<Rightarrow> string \<Rightarrow> ProductionEvent" where
  "ProductionEvent_init item st start_t end_t res =
     \<lparr>item_id = item, stage = st, start_time = start_t, end_time = end_t, resource = res,
      duration = total_seconds (end_t - start_t) / 3600\<rparr>"

definition get_pending_tasks :: "string \<Rightarrow> (string \<times> int \<times> string) list" where
  \<comment> \<open>\<open>_get_pending_tasks\<close>: asset id, priority and stage of three fixed tasks\<close>
  "get_pending_tasks st = [(''asset1'', 1, st), (''asset2'', 2, st), (''asset3'', 3, st)]"

definition solve_min_cost_flow :: "(string \<times> string) list" where
  \<comment> \<open>\<open>_solve_min_cost_flow\<close> returns a fixed assignment whatever the network\<close>
  "solve_min_cost_flow = [(''asset1'', ''m1''), (''asset2'', ''l1''), (''asset3'', ''a1'')]"

definition resolve_conflict :: "string \<Rightarrow> string \<Rightarrow> bool" where
  \<comment> \<open>the assignments are printed and nothing else is done with them\<close>
  "resolve_conflict asset_id st = (if get_pending_tasks st = [] then False else True)"

section \<open>simulator.py: the process of one asset\<close>

text \<open>
  \<open>process_asset\<close> is a generator: it runs up to a \<open>yield\<close> of a timeout and is resumed
  by the environment when the timeout is due. The model is the state machine of the
  generator. \<open>process_pc\<close> says where it is suspended, with the local variables that
  are read after the \<open>yield\<close>; \<open>outcome\<close> is how a run of the body ends: at a
  \<open>yield\<close> with the delay of the timeout, at the end of the body, or with an exception.
  \<open>env.timeout\<close> raises \<open>ValueError\<close> for a negative delay.
\<close>

datatype process_pc =
    Start
  | AfterInputWait string
  | AfterWork string datetime ref
  | AfterStall string

datatype outcome = Yield rat process_pc | Done | Raised py_error

record process_ctx =
  ctx_params :: ProductionParameters
  ctx_current_date :: datetime
  ctx_now :: rat
  ctx_asset_id :: string
  ctx_workflow :: WorkflowDefinition
  ctx_complexity :: string

definition stage_rank :: "WorkflowDefinition \<Rightarrow> string option \<Rightarrow> nat" where
  \<comment> \<open>the number of stages from the given one to the end of \<open>stage_order\<close>\<close>
  "stage_rank workflow current_stage =
     (case current_stage of
        None \<Rightarrow> 0
      | Some s \<Rightarrow>
          (case index_of (stage_order workflow) s of
             None \<Rightarrow> 0
           | Some idx \<Rightarrow> length (stage_order workflow) - idx))"

lemma index_of_nth:
  "distinct xs \<Longrightarrow> i < length xs \<Longrightarrow> index_of xs (xs ! i) = Some i"
proof (induction xs arbitrary: i)
  case Nil
  then show ?case by simp
next
  case (Cons x xs)
  then show ?case by (cases i) auto
qed

lemma index_of_less: "index_of xs y = Some i \<Longrightarrow> i < length xs"
  by (induction xs arbitrary: i) (auto split: if_splits)

lemma stage_order_distinct: "distinct (stage_order workflow)"
  by (simp add: stage_order_def)

lemma stage_rank_next:
  assumes "get_next_stage workflow s = Inr next_stage"
  shows "stage_rank workflow next_stage < stage_rank workflow (Some s)"
proof -
  from assms obtain idx where idx: "index_of (stage_order workflow) s = Some idx"
    by (cases "index_of (stage_order workflow) s") (auto simp: get_next_stage_def)
  then have lt: "idx < length (stage_order workflow)" by (rule index_of_less)
  show ?thesis
  proof (cases "int idx < int (length (stage_order workflow)) - 1")
    case True
    then have i1: "idx + 1 < length (stage_order workflow)" by simp
    from True assms idx have "next_stage = Some (stage_order workflow ! (idx + 1))"
      by (simp add: get_next_stage_def)
    moreover have "index_of (stage_order workflow) (stage_order workflow ! (idx + 1)) = Some (idx + 1)"
      using stage_order_distinct i1 by (rule index_of_nth)
    ultimately show ?thesis using idx i1 by (simp add: stage_rank_def)
  next
    case False
    with assms idx have "next_stage = None" by (simp add: get_next_stage_def)
    then show ?thesis using idx lt by (simp add: stage_rank_def)
  qed
qed

text \<open>
  The body of the \<open>while\<close> loop from its head, up to the next \<open>yield\<close>, the end or an
  exception. \<open>waited\<close> is true when the body is entered behind the \<open>yield\<close> of the
  creative input wait. Without a resource the conflict resolver is asked; when it
  reports a resolution the loop goes on with the next stage.
\<close>

function stage_loop :: "process_ctx \<Rightarrow> bool \<Rightarrow> string option \<Rightarrow> ResourcePool \<Rightarrow> outcome \<times> ResourcePool" where
  "stage_loop ctx waited current_stage pool =
     (case current_stage of
        None \<Rightarrow> (Done, pool)
      | Some s \<Rightarrow>
          if s = [] then (Done, pool)
          else
            (case DAList.lookup (stages (ctx_workflow ctx)) s of
               None \<Rightarrow> (Raised KeyError, pool)
             | Some sd \<Rightarrow>
                 (case default_bid sd of
                    None \<Rightarrow> (Raised KeyError, pool)
                  | Some dflt \<Rightarrow>
                      (case stage_order (ctx_workflow ctx) of
                         [] \<Rightarrow> (Raised IndexError, pool)
                       | first_stage # rest \<Rightarrow>
                           if s = first_stage \<and> \<not> waited then
                             (case map_of (creative_calendar (ctx_params ctx)) (ctx_asset_id ctx) of
                                None \<Rightarrow> (Raised KeyError, pool)
                              | Some input_date \<Rightarrow>
                                  if total_seconds (input_date - ctx_current_date ctx) < 0
                                  then (Raised ValueError, pool)
                                  else (Yield (total_seconds (input_date - ctx_current_date ctx))
                                          (AfterInputWait s), pool))
                           else
                             (case stage_resource_type sd of
                                None \<Rightarrow> (Raised KeyError, pool)
                              | Some rtype \<Rightarrow>
                                  (case sim_date (ctx_current_date ctx) (ctx_now ctx) of
                                     Inl e \<Rightarrow> (Raised e, pool)
                                   | Inr start_t \<Rightarrow>
                                       (case allocate_resource pool rtype start_t
                                               (case map_of (level_bids sd) (ctx_complexity ctx) of
                                                  None \<Rightarrow> dflt | Some b \<Rightarrow> b) of
                                          (Inl e, pool') \<Rightarrow> (Raised e, pool')
                                        | (Inr (Some r), pool') \<Rightarrow>
                                            if (case map_of (level_bids sd) (ctx_complexity ctx) of
                                                  None \<Rightarrow> dflt | Some b \<Rightarrow> b) * 24 < 0
                                            then (Raised ValueError, pool')
                                            else (Yield (of_int ((case map_of (level_bids sd) (ctx_complexity ctx) of
                                                    None \<Rightarrow> dflt | Some b \<Rightarrow> b) * 24))
                                                    (AfterWork s start_t r), pool')
                                        | (Inr None, pool') \<Rightarrow>
                                            if \<not> resolve_conflict (ctx_asset_id ctx) s
                                            then (Yield 1 (AfterStall s), pool')
                                            else
                                              (case get_next_stage (ctx_workflow ctx) s of
                                                 Inl e \<Rightarrow> (Raised e, pool')
                                               | Inr next_stage \<Rightarrow>
                                                   stage_loop ctx False next_stage pool'))))))))"
  by pat_completeness auto
termination
  by (relation "measure (\<lambda>(ctx, waited, current_stage, pool). stage_rank (ctx_workflow ctx) current_stage)")
     (auto simp: stage_rank_next)

declare stage_loop.simps [simp del]

definition process_resume :: "process_ctx \<Rightarrow> process_pc \<Rightarrow> ResourcePool \<Rightarrow> ProductionEvent list \<Rightarrow> outcome \<times> ResourcePool \<times> ProductionEvent list" where
  "process_resume ctx pc pool evs =
     (case pc of
        Start \<Rightarrow>
          (case stage_order (ctx_workflow ctx) of
             [] \<Rightarrow> (Raised IndexError, pool, evs)
           | first_stage # rest \<Rightarrow>
               (case stage_loop ctx False (Some first_stage) pool of (out, pool') \<Rightarrow> (out, pool', evs)))
      | AfterInputWait s \<Rightarrow>
          (case stage_loop ctx True (Some s) pool of (out, pool') \<Rightarrow> (out, pool', evs))
      | AfterWork s start_t r \<Rightarrow>
          (case sim_date (ctx_current_date ctx) (ctx_now ctx) of
             Inl e \<Rightarrow> (Raised e, pool, evs)
           | Inr end_t \<Rightarrow>
               (case get_next_stage (ctx_workflow ctx) s of
                  Inl e \<Rightarrow>
                    (Raised e, pool,
                     evs @ [ProductionEvent_init (ctx_asset_id ctx) s start_t end_t (res_name (heap pool ! r))])
                | Inr next_stage \<Rightarrow>
                    (case stage_loop ctx False next_stage pool of
                       (out, pool') \<Rightarrow>
                         (out, pool',
                          evs @ [ProductionEvent_init (ctx_asset_id ctx) s start_t end_t
                                   (res_name (heap pool ! r))]))))
      | AfterStall s \<Rightarrow>
          (case stage_loop ctx False (Some s) pool of (out, pool') \<Rightarrow> (out, pool', evs)))"

section \<open>simulator.py: AnimSimulator and the simpy environment\<close>

text \<open>
  The environment of simpy keeps a queue of events ordered by time, priority and the
  number of their scheduling. \<open>env.process\<close> schedules the first run of a generator with
  priority 0 (urgent) at the current time, a timeout is scheduled with priority 1
  (normal) after its delay, and a generator that ends or raises is scheduled as an
  event of priority 1 at the current time; when that event is processed, an exception
  of the generator leaves \<open>env.run\<close>. \<open>env.run(until)\<close> raises \<open>ValueError\<close> unless
  \<open>until\<close> is later than the current time, schedules an urgent stop event at
  \<open>until\<close>, and processes events until the stop event is reached; an empty queue before
  that is a \<open>RuntimeError\<close>.
\<close>

type_synonym pid = nat

datatype sim_event = Initialize pid | Timeout pid | ProcessEnd pid "py_error option" | StopSimulation

type_synonym queue_entry = "rat \<times> nat \<times> nat \<times> sim_event"

record process =
  proc_asset_id :: string
  proc_workflow :: WorkflowDefinition
  proc_complexity :: string
  proc_pc :: process_pc

text \<open>
  \<open>current_date\<close> is \<open>datetime.now()\<close>, read from the wall clock by the constructor;
  it is the \<open>clock\<close> argument of \<open>AnimSimulator_init\<close>.
\<close>

record AnimSimulator =
  params :: ProductionParameters
  env_now :: rat
  env_queue :: "queue_entry list"
  env_eid :: nat
  processes :: "process list"
  resource_pool :: ResourcePool
  events :: "ProductionEvent list"
  current_date :: datetime

definition schedule :: "AnimSimulator \<Rightarrow> sim_event \<Rightarrow> nat \<Rightarrow> rat \<Rightarrow> AnimSimulator" where
  "schedule sim ev priority delay =
     sim\<lparr>env_queue := env_queue sim @ [(env_now sim + delay, priority, env_eid sim, ev)],
         env_eid := Suc (env_eid sim)\<rparr>"

definition entry_less :: "queue_entry \<Rightarrow> queue_entry \<Rightarrow> bool" where
  "entry_less a b =
     (case a of (ta, pa, ea, eva) \<Rightarrow> case b of (tb, pb, eb, evb) \<Rightarrow>
        ta < tb \<or> (ta = tb \<and> (pa < pb \<or> (pa = pb \<and> ea < eb))))"

fun queue_min :: "queue_entry list \<Rightarrow> queue_entry option" where
  "queue_min [] = None"
| "queue_min (x # xs) =
     (case queue_min xs of
        None \<Rightarrow> Some x
      | Some y \<Rightarrow> if entry_less y x then Some y else Some x)"

definition register_resources :: "ResourcePool \<Rightarrow> ResourcePool" where
  \<comment> \<open>\<open>_register_resources\<close>\<close>
  "register_resources pool =
     (let p1 = snd (add_resource pool ''m1'' ''Modeling Artist'' ''quota'');
          p2 = snd (add_resource p1 ''m2'' ''Modeling Artist'' ''quota'');
          p3 = snd (add_resource p2 ''l1'' ''Layout Artist'' ''quota'');
          p4 = snd (add_resource p3 ''l2'' ''Layout Artist'' ''quota'');
          p5 = snd (add_resource p4 ''a1'' ''Animation Artist'' ''quota'');
          p6 = snd (add_resource p5 ''a2'' ''Animation Artist'' ''quota'');
          p7 = snd (add_resource p6 ''a3'' ''Animation Artist'' ''quota'')
      in snd (add_resource p7 ''s1'' ''Support Technician'' ''support''))"

definition AnimSimulator_init :: "ProductionParameters \<Rightarrow> datetime \<Rightarrow> py_error + AnimSimulator" where
  "AnimSimulator_init ps clock =
     (case map_of (resource_calendars ps) ''studio'' of
        None \<Rightarrow> Inl KeyError
      | Some cal \<Rightarrow>
          Inr \<lparr>params = ps, env_now = 0, env_queue = [], env_eid = 0, processes = [],
               resource_pool = register_resources (ResourcePool_init cal), events = [],
               current_date = clock\<rparr>)"

fun schedule_production :: "AnimSimulator \<Rightarrow> string \<Rightarrow> string list \<Rightarrow> (py_error + unit) \<times> AnimSimulator" where
  "schedule_production sim project_id [] = (Inr (), sim)"
| "schedule_production sim project_id (asset_id # assets) =
     (case map_of (workflow_definitions (params sim)) ''asset_workflow'' of
        None \<Rightarrow> (Inl KeyError, sim)
      | Some workflow \<Rightarrow>
          (case map_of (complexity_matrix (params sim)) asset_id of
             None \<Rightarrow> (Inl KeyError, sim)
           | Some (level, details) \<Rightarrow>
               schedule_production
                 (schedule
                    (sim\<lparr>processes := processes sim @
                           [\<lparr>proc_asset_id = asset_id, proc_workflow = workflow,
                             proc_complexity = level, proc_pc = Start\<rparr>]\<rparr>)
                    (Initialize (length (processes sim))) 0 0)
                 project_id assets))"

definition resume :: "AnimSimulator \<Rightarrow> pid \<Rightarrow> AnimSimulator" where
  \<comment> \<open>the callback of an \<open>Initialize\<close> or \<open>Timeout\<close> event: run the generator to its next stop\<close>
  "resume sim p =
     (let proc = processes sim ! p;
          ctx = \<lparr>ctx_params = params sim, ctx_current_date = current_date sim, ctx_now = env_now sim,
                 ctx_asset_id = proc_asset_id proc, ctx_workflow = proc_workflow proc,
                 ctx_complexity = proc_complexity proc\<rparr>
      in case process_resume ctx (proc_pc proc) (resource_pool sim) (events sim) of
           (out, pool', evs') \<Rightarrow>
             (let sim' = sim\<lparr>resource_pool := pool', events := evs'\<rparr>
              in case out of
                   Yield delay pc' \<Rightarrow>
                     schedule (sim'\<lparr>processes := (processes sim')[p := proc\<lparr>proc_pc := pc'\<rparr>]\<rparr>)
                       (Timeout p) 1 delay
                 | Done \<Rightarrow> schedule sim' (ProcessEnd p None) 1 0
                 | Raised e \<Rightarrow> schedule sim' (ProcessEnd p (Some e)) 1 0))"

datatype step_result = Continue AnimSimulator | Stopped AnimSimulator | Failed py_error AnimSimulator | EmptySchedule

definition step :: "AnimSimulator \<Rightarrow> step_result" where
  \<comment> \<open>\<open>env.step\<close> with the callbacks of the event\<close>
  "step sim =
     (case queue_min (env_queue sim) of
        None \<Rightarrow> EmptySchedule
      | Some (t, priority, eid, ev) \<Rightarrow>
          (let sim' = sim\<lparr>env_now := t, env_queue := remove1 (t, priority, eid, ev) (env_queue sim)\<rparr>
           in case ev of
                StopSimulation \<Rightarrow> Stopped sim'
              | ProcessEnd p None \<Rightarrow> Continue sim'
              | ProcessEnd p (Some e) \<Rightarrow> Failed e sim'
              | Initialize p \<Rightarrow> Continue (resume sim' p)
              | Timeout p \<Rightarrow> Continue (resume sim' p)))"

text \<open>
  The loop of \<open>env.run\<close> has no bound of its own, so the model counts the events it may
  process: \<open>None\<close> when the count is used up before the loop ends.
\<close>

fun run_loop :: "nat \<Rightarrow> AnimSimulator \<Rightarrow> ((py_error + unit) \<times> AnimSimulator) option" where
  "run_loop 0 sim = None"
| "run_loop (Suc n) sim =
     (case step sim of
        EmptySchedule \<Rightarrow> Some (Inl RuntimeError, sim)
      | Stopped sim' \<Rightarrow> Some (Inr (), sim')
      | Failed e sim' \<Rightarrow> Some (Inl e, sim')
      | Continue sim' \<Rightarrow> run_loop n sim')"

definition run :: "nat \<Rightarrow> AnimSimulator \<Rightarrow> rat \<Rightarrow> ((py_error + unit) \<times> AnimSimulator) option" where
  "run fuel sim until =
     (if until \<le> env_now sim then Some (Inl ValueError, sim)
      else run_loop fuel (schedule sim StopSimulation 0 (until - env_now sim)))"

text \<open>
  The example of \<open>simulator.py\<close> and the button of \<open>app.py\<close>: construct the simulator,
  schedule the assets of a project, run to the horizon, and read the event list. An exception
  ends the sequence where it is raised.
\<close>

definition simulate :: "nat \<Rightarrow> ProductionParameters \<Rightarrow> datetime \<Rightarrow> string \<Rightarrow> string list \<Rightarrow> rat \<Rightarrow> (py_error + ProductionEvent list) option" where
  "simulate fuel ps clock project_id assets until =
     (case AnimSimulator_init ps clock of
        Inl e \<Rightarrow> Some (Inl e)
      | Inr sim \<Rightarrow>
          (case schedule_production sim project_id assets of
             (Inl e, sim1) \<Rightarrow> Some (Inl e)
           | (Inr u, sim1) \<Rightarrow>
               (case run fuel sim1 until of
                  None \<Rightarrow> None
                | Some (Inl e, sim2) \<Rightarrow> Some (Inl e)
                | Some (Inr u, sim2) \<Rightarrow> Some (Inr (events sim2)))))"

section \<open>Example data of the sources\<close>

text \<open>
  The calendar, date, resources and pool of the example runs in \<open>resource_pool.py\<close> and
  \<open>app.py\<close>: \<open>BusinessCalendar("Studio Calendar")\<close> with the default Monday to
  Friday, \<open>datetime(2026, 3, 10)\<close> (a Tuesday, 739684 days after 0001-01-01), the pool
  with \<open>m1\<close>, \<open>m2\<close>, \<open>l1\<close> and \<open>s1\<close>. \<open>closed_cal\<close> is a calendar
  without working days.
\<close>

definition studio_cal :: BusinessCalendar where
  "studio_cal = \<lparr>cal_name = ''Studio Calendar'', work_days = [0, 1, 2, 3, 4], holidays = {}, vacations = []\<rparr>"

definition work_date :: datetime where
  "work_date = 739684 * US_PER_DAY"

definition pool_m1 :: ResourcePool where
  "pool_m1 = snd (add_resource (ResourcePool_init studio_cal) ''m1'' ''Modeling Artist'' ''quota'')"

definition example_resource :: Resource where
  "example_resource = Resource_init ''Modeling Artist'' ''quota'' studio_cal"

definition example_pool :: ResourcePool where
  "example_pool =
     snd (add_resource (snd (add_resource (snd (add_resource (snd (add_resource
       (ResourcePool_init studio_cal) ''m1'' ''Modeling Artist'' ''quota''))
       ''m2'' ''Modeling Artist'' ''quota'')) ''l1'' ''Layout Artist'' ''quota''))
       ''s1'' ''Support Technician'' ''support'')"

definition closed_cal :: BusinessCalendar where
  "closed_cal = \<lparr>cal_name = ''Closed'', work_days = [], holidays = {}, vacations = []\<rparr>"

text \<open>The example pool after every one of its four resources was booked for 8 hours on the example date.\<close>

definition booked_pool :: ResourcePool where
  "booked_pool =
     snd (allocate_resource (snd (allocate_resource (snd (allocate_resource (snd (allocate_resource
       example_pool ''quota'' work_date 8)) ''quota'' work_date 8)) ''quota'' work_date 8))
       ''support'' work_date 8)"

text \<open>
  The parameters of \<open>app.py\<close>: the creative input dates 2026-03-01 and 2026-03-05,
  the complexities and the workflow of three stages. The clock readings are one, two
  and three seconds before the creative input date of \<open>asset_caballo\<close>.
  \<open>studio_pool\<close> is the pool the simulator registers, \<open>sunday_ctx\<close> the process of
  \<open>asset_caballo\<close> when it is resumed after its creative input wait of one second,
  at 2026-03-01T23:59:59 in simulated time, a Sunday.
\<close>

definition asset_workflow :: WorkflowDefinition where
  "asset_workflow = \<lparr>stages =
     DAList.update ''anim'' \<lparr>default_bid = Some 4, level_bids = [(''alta'', 8), (''baja'', 4)], stage_resource_type = Some ''quota''\<rparr>
    (DAList.update ''layout'' \<lparr>default_bid = Some 2, level_bids = [(''alta'', 3), (''baja'', 1)], stage_resource_type = Some ''quota''\<rparr>
    (DAList.update ''modelado'' \<lparr>default_bid = Some 3, level_bids = [(''alta'', 5), (''baja'', 2)], stage_resource_type = Some ''quota''\<rparr>
     DAList.empty))\<rparr>"

definition app_params :: ProductionParameters where
  "app_params =
     \<lparr>creative_calendar = [(''asset_caballo'', 739675 * US_PER_DAY), (''shot_sec1'', 739679 * US_PER_DAY)],
      delivery_calendar = [],
      complexity_matrix =
        [(''asset_caballo'', ''alta'', [(''modelado'', 5), (''layout'', 3), (''anim'', 8)]),
         (''shot_sec1'', ''baja'', [(''modelado'', 2), (''layout'', 1), (''anim'', 4)])],
      workflow_definitions = [(''asset_workflow'', asset_workflow)],
      resource_calendars = [(''studio'', studio_cal)]\<rparr>"

definition clock_1s_before :: datetime where
  "clock_1s_before = 739675 * US_PER_DAY - 1000000"

definition clock_2s_before :: datetime where
  "clock_2s_before = 739675 * US_PER_DAY - 2000000"


definition studio_pool :: ResourcePool where
  "studio_pool = register_resources (ResourcePool_init studio_cal)"

definition sunday_ctx :: process_ctx where
  "sunday_ctx = \<lparr>ctx_params = app_params, ctx_current_date = clock_1s_before, ctx_now = 1,
                  ctx_asset_id = ''asset_caballo'', ctx_workflow = asset_workflow,
                  ctx_complexity = ''alta''\<rparr>"

definition sunday_evening :: datetime where
  "sunday_evening = 739676 * US_PER_DAY - 1000000"



section \<open>Evaluation of the example data\<close>

lemma pool_m1_eval:
  "pool_m1 = \<lparr>pool_calendar = studio_cal, heap = [Resource_init ''Modeling Artist'' ''quota'' studio_cal],
      resources = [(''m1'', 0)], resources_by_type = [(''quota'', [0])]\<rparr>"
  by (simp add: pool_m1_def add_resource_def ResourcePool_init_def Let_def bucket_def)

lemma work_date_workday: "is_workday studio_cal work_date"
  by (simp add: is_workday_def in_any_interval_def studio_cal_def work_date_def weekday_def US_PER_DAY_def)

lemma example_pool_eval:
  "example_pool = \<lparr>pool_calendar = studio_cal,
      heap = [Resource_init ''Modeling Artist'' ''quota'' studio_cal,
              Resource_init ''Modeling Artist'' ''quota'' studio_cal,
              Resource_init ''Layout Artist'' ''quota'' studio_cal,
              Resource_init ''Support Technician'' ''support'' studio_cal],
      resources = [(''m1'', 0), (''m2'', 1), (''l1'', 2), (''s1'', 3)],
      resources_by_type = [(''quota'', [0, 1, 2]), (''support'', [3])]\<rparr>"
  by (simp add: example_pool_def add_resource_def ResourcePool_init_def Let_def bucket_def)

lemma example_pool_wf: "pool_wf example_pool"
  by (simp add: example_pool_eval pool_wf_def id_index_refs_def type_index_refs_def)

lemma pool_m1_wf: "pool_wf pool_m1"
  by (simp add: pool_m1_eval pool_wf_def id_index_refs_def type_index_refs_def)

lemma closed_cal_never: "\<not> is_workday closed_cal d"
  by (simp add: is_workday_def closed_cal_def)

section \<open>BusinessCalendar: working days\<close>

text \<open>
  Claim C5. For every calendar \<open>C\<close> and date \<open>d\<close>, \<open>is_workday\<close> is false
  whenever the weekday of \<open>d\<close> is not in \<open>work_days\<close>, or \<open>d\<close> is a holiday, or
  \<open>d\<close> lies in a vacation interval (bounds included), and true in every other case.
  The function only reads its arguments: it is a function of the calendar and the date
  and returns nothing but the truth value.
\<close>

theorem is_workday_truth_table:
  "is_workday C d =
     (\<not> (weekday d \<notin> set (work_days C) \<or> d \<in> holidays C \<or>
          (\<exists>(s, e) \<in> set (vacations C). s \<le> d \<and> d \<le> e)))"
  by (auto simp: is_workday_def in_any_interval_def list_ex_iff)

theorem is_workday_truth_table_witness:
  "is_workday studio_cal work_date \<and> \<not> is_workday studio_cal (work_date - timedelta_days 2)"
  using is_workday_truth_table[of studio_cal work_date]
    is_workday_truth_table[of studio_cal "work_date - timedelta_days 2"]
  by (simp add: studio_cal_def work_date_def weekday_def US_PER_DAY_def timedelta_days_def)

subsection \<open>The forward scan of \<open>next_workday\<close>\<close>

text \<open>
  The loop tests \<open>next_day\<close>, one day later, and so on, each date once and in
  increasing order. If a working day is at most \<open>k\<close> days ahead and inside the range
  of \<open>datetime\<close>, the loop returns the first one. If no later date is a working day,
  nothing in the loop stops the scan: it ends where the date arithmetic leaves the range
  of \<open>datetime\<close>, with Python's \<open>OverflowError\<close>.
\<close>

lemma next_workday_loop_finds:
  assumes "is_workday cal (nd + timedelta_days (int k))" "nd + timedelta_days (int k) \<le> MAX_DATETIME" "0 \<le> nd"
  shows "\<exists>j\<ge>0. j \<le> int k \<and> next_workday_loop cal nd = Inr (nd + timedelta_days j) \<and>
             is_workday cal (nd + timedelta_days j) \<and>
             (\<forall>i. 0 \<le> i \<and> i < j \<longrightarrow> \<not> is_workday cal (nd + timedelta_days i))"
  using assms
proof (induction k arbitrary: nd)
  case 0
  then have "is_workday cal nd" by (simp add: timedelta_days_def next_workday_loop.simps)
  then have "next_workday_loop cal nd = Inr (nd + timedelta_days 0)"
    by (simp add: timedelta_days_def next_workday_loop.simps)
  with \<open>is_workday cal nd\<close> show ?case
    by (intro exI[of _ 0]) (auto simp: timedelta_days_def)
next
  case (Suc k)
  show ?case
  proof (cases "is_workday cal nd")
    case True
    then have "next_workday_loop cal nd = Inr (nd + timedelta_days 0)"
      by (simp add: timedelta_days_def next_workday_loop.simps)
    with True show ?thesis
      by (intro exI[of _ 0]) (auto simp: timedelta_days_def)
  next
    case False
    let ?nd = "nd + timedelta_days 1"
    have shift: "?nd + timedelta_days i = nd + timedelta_days (i + 1)" for i
      by (simp add: timedelta_days_def algebra_simps)
    have le: "?nd \<le> MAX_DATETIME" "0 \<le> ?nd"
      using Suc.prems by (simp_all add: timedelta_days_def US_PER_DAY_def)
    have eq: "?nd + timedelta_days (int k) = nd + timedelta_days (int (Suc k))"
      by (simp add: timedelta_days_def algebra_simps)
    have "is_workday cal (?nd + timedelta_days (int k))"
      using Suc.prems(1) unfolding eq .
    moreover have "?nd + timedelta_days (int k) \<le> MAX_DATETIME"
      using Suc.prems(2) unfolding eq .
    ultimately obtain j where j: "0 \<le> j" "j \<le> int k"
        "next_workday_loop cal ?nd = Inr (?nd + timedelta_days j)"
        "is_workday cal (?nd + timedelta_days j)"
        "\<forall>i. 0 \<le> i \<and> i < j \<longrightarrow> \<not> is_workday cal (?nd + timedelta_days i)"
      using Suc.IH[of ?nd] le by blast
    have run: "next_workday_loop cal nd = Inr (nd + timedelta_days (j + 1))"
      using False le j(3) by (subst next_workday_loop.simps) (simp add: shift)
    have none: "\<not> is_workday cal (nd + timedelta_days i)" if "0 \<le> i" "i < j + 1" for i
    proof (cases "i = 0")
      case True
      with False show ?thesis by (simp add: timedelta_days_def next_workday_loop.simps)
    next
      case False
      with that have "0 \<le> i - 1" "i - 1 < j" by simp_all
      with j(5) have "\<not> is_workday cal (?nd + timedelta_days (i - 1))" by blast
      then show ?thesis by (simp add: shift)
    qed
    show ?thesis
      using j(1,2,4) run none by (intro exI[of _ "j + 1"]) (simp add: shift)
  qed
qed

lemma next_workday_loop_none:
  assumes "\<forall>d' \<ge> nd. \<not> is_workday cal d'"
  shows "next_workday_loop cal nd = Inl OverflowError"
  using assms
proof (induction cal nd rule: next_workday_loop.induct)
  case (1 cal next_day)
  have nw: "\<not> is_workday cal next_day" using "1.prems" by simp
  show ?case
  proof (cases "0 \<le> next_day + timedelta_days 1 \<and> next_day + timedelta_days 1 \<le> MAX_DATETIME")
    case True
    have "\<forall>d' \<ge> next_day + timedelta_days 1. \<not> is_workday cal d'"
      using "1.prems" by (simp add: timedelta_days_def US_PER_DAY_def)
    with "1.IH"[OF nw True] have "next_workday_loop cal (next_day + timedelta_days 1) = Inl OverflowError" .
    with nw True show ?thesis by (subst next_workday_loop.simps) simp
  next
    case False
    with nw show ?thesis by (subst next_workday_loop.simps) auto
  qed
qed

lemma next_workday_script:
  "next_workday RunAsScript cal d =
     (case dt_add d (timedelta_days 1) of
        Inl e \<Rightarrow> Inl e
      | Inr next_day \<Rightarrow> next_workday_loop cal next_day)"
  by (simp add: next_workday_def timedelta_global_def)

text \<open>
  Where the name \<open>timedelta\<close> is bound, and from a valid date \<open>d\<close>: when some working
  day lies \<open>k \<ge> 1\<close> days ahead within the range of \<open>datetime\<close>, \<open>next_workday\<close>
  returns a date \<open>j\<close> days ahead, \<open>1 \<le> j \<le> k\<close>, strictly later than \<open>d\<close>, that is
  a working day, and every date passed on the way is not one. When no later date is a
  working day, the scan has no guard: the call ends with the \<open>OverflowError\<close> of the
  date arithmetic at the end of the \<open>datetime\<close> range.
\<close>

lemma next_workday_scan_script:
  assumes "0 \<le> d"
  shows "(\<forall>k. 1 \<le> k \<and> d + timedelta_days k \<le> MAX_DATETIME \<and> is_workday cal (d + timedelta_days k) \<longrightarrow>
            (\<exists>j. 1 \<le> j \<and> j \<le> k \<and> next_workday RunAsScript cal d = Inr (d + timedelta_days j) \<and>
                 d < d + timedelta_days j \<and> is_workday cal (d + timedelta_days j) \<and>
                 (\<forall>i. 1 \<le> i \<and> i < j \<longrightarrow> \<not> is_workday cal (d + timedelta_days i)))) \<and>
         ((\<forall>d'. d < d' \<longrightarrow> \<not> is_workday cal d') \<longrightarrow> next_workday RunAsScript cal d = Inl OverflowError)"
proof (intro conjI allI impI)
  fix k
  assume k: "1 \<le> k \<and> d + timedelta_days k \<le> MAX_DATETIME \<and> is_workday cal (d + timedelta_days k)"
  let ?nd = "d + timedelta_days 1"
  have shift: "?nd + timedelta_days i = d + timedelta_days (i + 1)" for i
    by (simp add: timedelta_days_def algebra_simps)
  have k': "int (nat (k - 1)) = k - 1" using k by simp
  have le: "?nd \<le> MAX_DATETIME" "0 \<le> ?nd"
    using k assms by (simp_all add: timedelta_days_def US_PER_DAY_def)
  have "is_workday cal (?nd + timedelta_days (int (nat (k - 1))))"
    "?nd + timedelta_days (int (nat (k - 1))) \<le> MAX_DATETIME"
    using k unfolding k' shift by simp_all
  from next_workday_loop_finds[OF this le(2)] obtain j where j: "0 \<le> j" "j \<le> k - 1"
    "next_workday_loop cal ?nd = Inr (?nd + timedelta_days j)"
    "is_workday cal (?nd + timedelta_days j)"
    "\<forall>i. 0 \<le> i \<and> i < j \<longrightarrow> \<not> is_workday cal (?nd + timedelta_days i)"
    unfolding k' by blast
  have run: "next_workday RunAsScript cal d = Inr (d + timedelta_days (j + 1))"
    using le j(3) by (simp add: next_workday_script dt_add_def shift)
  have later: "d < d + timedelta_days (j + 1)"
    using j(1) by (simp add: timedelta_days_def US_PER_DAY_def)
  have none: "\<not> is_workday cal (d + timedelta_days i)" if "1 \<le> i" "i < j + 1" for i
  proof -
    from that have "0 \<le> i - 1 \<and> i - 1 < j" by simp
    with j(5) have "\<not> is_workday cal (?nd + timedelta_days (i - 1))" by blast
    then show ?thesis by (simp add: shift)
  qed
  show "\<exists>j. 1 \<le> j \<and> j \<le> k \<and> next_workday RunAsScript cal d = Inr (d + timedelta_days j) \<and>
            d < d + timedelta_days j \<and> is_workday cal (d + timedelta_days j) \<and>
            (\<forall>i. 1 \<le> i \<and> i < j \<longrightarrow> \<not> is_workday cal (d + timedelta_days i))"
    using j(1,2,4) run later none by (intro exI[of _ "j + 1"]) (simp add: shift)
next
  assume none: "\<forall>d'. d < d' \<longrightarrow> \<not> is_workday cal d'"
  show "next_workday RunAsScript cal d = Inl OverflowError"
  proof (cases "d + timedelta_days 1 \<le> MAX_DATETIME")
    case True
    have "\<forall>d' \<ge> d + timedelta_days 1. \<not> is_workday cal d'"
      using none by (simp add: timedelta_days_def US_PER_DAY_def)
    then have "next_workday_loop cal (d + timedelta_days 1) = Inl OverflowError"
      by (rule next_workday_loop_none)
    with True assms show ?thesis
      by (simp add: next_workday_script dt_add_def timedelta_days_def US_PER_DAY_def)
  next
    case False
    then show ?thesis by (simp add: next_workday_script dt_add_def)
  qed
qed

lemma next_workday_scan_example:
  "next_workday RunAsScript studio_cal (work_date + timedelta_days 3) = Inr (work_date + timedelta_days 6) \<and>
   next_workday RunAsScript closed_cal (work_date + timedelta_days 3) = Inl OverflowError"
proof -
  let ?d = "work_date + timedelta_days 3"
  have d0: "0 \<le> ?d" by (simp add: work_date_def timedelta_days_def US_PER_DAY_def)
  have wd: "is_workday studio_cal (?d + timedelta_days j) = (j = 3)" if "1 \<le> j" "j \<le> 3" for j
  proof -
    from that have "j = 1 \<or> j = 2 \<or> j = 3" by arith
    then show ?thesis
      by (auto simp: is_workday_def in_any_interval_def studio_cal_def work_date_def weekday_def
          US_PER_DAY_def timedelta_days_def)
  qed
  have hyp: "1 \<le> (3::int) \<and> ?d + timedelta_days 3 \<le> MAX_DATETIME \<and> is_workday studio_cal (?d + timedelta_days 3)"
    using wd[of 3] by (simp add: work_date_def timedelta_days_def US_PER_DAY_def MAX_DATETIME_def)
  from next_workday_scan_script[OF d0, of studio_cal] hyp
  obtain j where j: "1 \<le> j" "j \<le> 3" "next_workday RunAsScript studio_cal ?d = Inr (?d + timedelta_days j)"
    "is_workday studio_cal (?d + timedelta_days j)" by blast
  from wd[OF j(1,2)] j(4) have "j = 3" by simp
  with j(3) have a: "next_workday RunAsScript studio_cal ?d = Inr (work_date + timedelta_days 6)"
    by (simp add: timedelta_days_def)
  have "\<forall>d'. ?d < d' \<longrightarrow> \<not> is_workday closed_cal d'" by (simp add: closed_cal_never)
  with next_workday_scan_script[OF d0, of closed_cal] have "next_workday RunAsScript closed_cal ?d = Inl OverflowError"
    by blast
  with a show ?thesis by simp
qed

text \<open>
  On a calendar without working days the scan from 2026-03-10 runs through every
  remaining day up to 9999-12-31 and fails there with \<open>OverflowError\<close>; no iteration
  cap and no configuration error stop it before.
\<close>

lemma next_workday_unguarded_script:
  "next_workday RunAsScript closed_cal work_date = Inl OverflowError"
proof -
  have "\<forall>d' \<ge> work_date + timedelta_days 1. \<not> is_workday closed_cal d'"
    by (simp add: closed_cal_never)
  then have "next_workday_loop closed_cal (work_date + timedelta_days 1) = Inl OverflowError"
    by (rule next_workday_loop_none)
  then show ?thesis
    by (simp add: next_workday_script dt_add_def work_date_def timedelta_days_def US_PER_DAY_def MAX_DATETIME_def)
qed

text \<open>
  Claim C6. \<open>next_workday\<close> is to return the first working day after its argument.
  Called on a calendar of the imported module, it raises \<open>NameError\<close> in its first
  statement, whatever the calendar and the date: so it does on the studio calendar from
  Friday 2026-03-13, where Monday 2026-03-16 is the working day the scan would reach.
  Nothing is scanned and no date is returned.
\<close>

theorem next_workday_name_error:
  "next_workday Imported cal d = Inl NameError \<and>
   next_workday Imported studio_cal (work_date + timedelta_days 3) = Inl NameError \<and>
   is_workday studio_cal (work_date + timedelta_days 6) \<and>
   next_workday RunAsScript studio_cal (work_date + timedelta_days 3) = Inr (work_date + timedelta_days 6)"
proof -
  have "is_workday studio_cal (work_date + timedelta_days 6)"
    by (simp add: is_workday_def in_any_interval_def studio_cal_def work_date_def weekday_def
        US_PER_DAY_def timedelta_days_def)
  then show ?thesis
    using next_workday_scan_example by (simp add: next_workday_def timedelta_global_def)
qed

section \<open>Resource: availability and assignment\<close>

lemma assign_work_load:
  "current_load (snd (assign_work r d h)) d' =
     (if is_available r d h \<and> d' = d then current_load r d + h else current_load r d')"
  by (simp add: assign_work_def current_load_def)

lemma assign_work_cap:
  assumes "\<forall>d'. current_load r d' \<le> 8"
  shows "current_load (snd (assign_work r d h)) d' \<le> 8"
  using assms by (simp add: assign_work_load is_available_def split: if_splits)

lemma assign_work_calls_cap:
  assumes "\<forall>d'. current_load r d' \<le> 8"
  shows "current_load (assign_work_calls r calls) d' \<le> 8"
  using assms
proof (induction calls arbitrary: r)
  case Nil
  then show ?case by simp
next
  case (Cons c calls)
  obtain d h where c: "c = (d, h)" by (cases c)
  have "\<forall>d'. current_load (snd (assign_work r d h)) d' \<le> 8"
    using Cons.prems assign_work_cap by blast
  from Cons.IH[OF this] show ?case by (simp add: c)
qed

lemma example_resource_available:
  "is_available example_resource work_date h = (h \<le> 8)"
  by (simp add: is_available_def example_resource_def Resource_init_def work_date_workday
      in_any_interval_def current_load_def)

text \<open>
  Claim C4. For every resource, date and hours value, \<open>assign_work\<close> raises exactly
  when \<open>is_available\<close> is false, and then the resource is unchanged. On success
  the entry of \<open>assigned_hours\<close> for the date is the former load plus the hours.
  Hence no load exceeds 8 after any sequence of calls (the failed ones change nothing)
  on a resource whose loads were at most 8 before, in particular on a new resource.
\<close>

theorem assign_work_guarded:
  "((\<exists>e. fst (assign_work r d h) = Inl e) \<longleftrightarrow> \<not> is_available r d h) \<and>
   (\<not> is_available r d h \<longrightarrow> assign_work r d h = (Inl ValueError, r)) \<and>
   (is_available r d h \<longrightarrow>
      fst (assign_work r d h) = Inr () \<and>
      snd (assign_work r d h) = r\<lparr>assigned_hours := (assigned_hours r)(d \<mapsto> current_load r d + h)\<rparr> \<and>
      current_load (snd (assign_work r d h)) d = current_load r d + h) \<and>
   ((\<forall>d'. current_load r d' \<le> 8) \<longrightarrow> (\<forall>calls d'. current_load (assign_work_calls r calls) d' \<le> 8)) \<and>
   (\<forall>calls d'. current_load (assign_work_calls (Resource_init n t cal) calls) d' \<le> 8)"
proof -
  have "\<forall>d'. current_load (Resource_init n t cal) d' \<le> 8"
    by (simp add: Resource_init_def current_load_def)
  then have "\<forall>calls d'. current_load (assign_work_calls (Resource_init n t cal) calls) d' \<le> 8"
    using assign_work_calls_cap by blast
  moreover have "(\<forall>d'. current_load r d' \<le> 8) \<longrightarrow> (\<forall>calls d'. current_load (assign_work_calls r calls) d' \<le> 8)"
    using assign_work_calls_cap by blast
  moreover have "current_load (snd (assign_work r d h)) d = current_load r d + h" if "is_available r d h"
    using that by (simp add: assign_work_load)
  ultimately show ?thesis
    by (simp add: assign_work_def)
qed

theorem assign_work_guarded_witness:
  "assign_work example_resource work_date 9 = (Inl ValueError, example_resource) \<and>
   fst (assign_work example_resource work_date 5) = Inr () \<and>
   current_load (snd (assign_work example_resource work_date 5)) work_date = 5 \<and>
   current_load (assign_work_calls example_resource [(work_date, 5), (work_date, 5), (work_date, 3)]) work_date \<le> 8"
proof -
  have l0: "current_load example_resource d' = 0" for d'
    by (simp add: example_resource_def Resource_init_def current_load_def)
  have a: "\<not> is_available example_resource work_date 9" "is_available example_resource work_date 5"
    by (simp_all add: example_resource_available)
  have b: "\<forall>d'. current_load example_resource d' \<le> 8" by (simp add: l0)
  note t9 = assign_work_guarded[of example_resource work_date 9 "''Modeling Artist''" "''quota''" studio_cal]
  note t5 = assign_work_guarded[of example_resource work_date 5 "''Modeling Artist''" "''quota''" studio_cal]
  from t9 a(1) have c1: "assign_work example_resource work_date 9 = (Inl ValueError, example_resource)"
    by blast
  from t5 a(2) have c2: "fst (assign_work example_resource work_date 5) = Inr ()"
    and c3: "current_load (snd (assign_work example_resource work_date 5)) work_date =
             current_load example_resource work_date + 5"
    by blast+
  from t5 b have c4: "current_load (assign_work_calls example_resource
      [(work_date, 5), (work_date, 5), (work_date, 3)]) work_date \<le> 8"
    by blast
  from c1 c2 c3 c4 show ?thesis by (simp only: l0) simp
qed

section \<open>ResourcePool: allocation\<close>

lemma allocate_scan_find:
  "allocate_scan h rs d hours =
     (case find (\<lambda>r. is_available (h ! r) d hours) rs of
        None \<Rightarrow> (Inr None, h)
      | Some r \<Rightarrow> (Inr (Some r),
          h[r := (h ! r)\<lparr>assigned_hours := (assigned_hours (h ! r))(d \<mapsto> current_load (h ! r) d + hours)\<rparr>]))"
  by (induction rs) (auto simp: assign_work_def)

lemma bucket_refs_valid:
  assumes "pool_wf pool" "r \<in> set (bucket pool t)"
  shows "r < length (heap pool)"
proof -
  from assms(2) obtain b where b: "map_of (resources_by_type pool) t = Some b" "r \<in> set b"
    by (cases "map_of (resources_by_type pool) t") (auto simp: bucket_def)
  then have "(t, b) \<in> set (resources_by_type pool)" by (simp add: map_of_SomeD)
  with b(2) have "r \<in> set (type_index_refs pool)"
    by (force simp: type_index_refs_def)
  with assms(1) show ?thesis by (auto simp: pool_wf_def list_all_iff)
qed

lemma allocate_resource_cases:
  "allocate_resource pool t d hours =
     (case find (\<lambda>r. is_available (heap pool ! r) d hours) (bucket pool t) of
        None \<Rightarrow> (Inr None, pool)
      | Some r \<Rightarrow> (Inr (Some r),
          pool\<lparr>heap := (heap pool)[r := (heap pool ! r)\<lparr>assigned_hours :=
             (assigned_hours (heap pool ! r))(d \<mapsto> current_load (heap pool ! r) d + hours)\<rparr>]\<rparr>))"
  by (simp add: allocate_resource_def allocate_scan_find split: option.splits)

text \<open>
  Claim C10. On a pool as the program builds them, \<open>allocate_resource\<close> never
  raises. When it returns a resource \<open>r\<close>, that resource is of the requested bucket and
  was available; its load on the date has grown by the hours, its entries for other dates
  and its other fields are as before, every other object of the store is as before, and
  so are both indices and the calendar. When it returns \<open>None\<close>, which includes a
  type without resources, the pool is unchanged.
\<close>

theorem allocate_resource_frame:
  assumes "pool_wf pool" and "allocate_resource pool t d hours = (res, pool')"
  shows "(\<forall>e. res \<noteq> Inl e) \<and>
         (res = Inr None \<longrightarrow> pool' = pool) \<and>
         (\<forall>r. res = Inr (Some r) \<longrightarrow>
            r \<in> set (bucket pool t) \<and> r < length (heap pool) \<and>
            is_available (heap pool ! r) d hours \<and>
            current_load (heap pool' ! r) d = current_load (heap pool ! r) d + hours \<and>
            (\<forall>d'. d' \<noteq> d \<longrightarrow> assigned_hours (heap pool' ! r) d' = assigned_hours (heap pool ! r) d') \<and>
            heap pool' ! r = (heap pool ! r)\<lparr>assigned_hours := assigned_hours (heap pool' ! r)\<rparr> \<and>
            length (heap pool') = length (heap pool) \<and>
            (\<forall>r'. r' \<noteq> r \<longrightarrow> heap pool' ! r' = heap pool ! r') \<and>
            resources pool' = resources pool \<and>
            resources_by_type pool' = resources_by_type pool \<and>
            pool_calendar pool' = pool_calendar pool)"
proof (cases "find (\<lambda>r. is_available (heap pool ! r) d hours) (bucket pool t)")
  case None
  with assms(2) have "res = Inr None" "pool' = pool"
    by (simp_all add: allocate_resource_cases)
  then show ?thesis by simp
next
  case (Some r)
  then have r: "r \<in> set (bucket pool t)" "is_available (heap pool ! r) d hours"
    by (auto simp: find_Some_iff)
  then have lt: "r < length (heap pool)" using assms(1) bucket_refs_valid by blast
  from Some assms(2) have res: "res = Inr (Some r)"
    and p': "pool' = pool\<lparr>heap := (heap pool)[r := (heap pool ! r)\<lparr>assigned_hours :=
             (assigned_hours (heap pool ! r))(d \<mapsto> current_load (heap pool ! r) d + hours)\<rparr>]\<rparr>"
    by (simp_all add: allocate_resource_cases)
  show ?thesis
    using r lt by (simp add: res p' current_load_def)
qed

theorem allocate_resource_frame_witness:
  "fst (allocate_resource example_pool ''quota'' work_date 8) = Inr (Some 0) \<and>
   current_load (heap (snd (allocate_resource example_pool ''quota'' work_date 8)) ! 0) work_date = 8 \<and>
   heap (snd (allocate_resource example_pool ''quota'' work_date 8)) ! 1 = heap example_pool ! 1 \<and>
   resources (snd (allocate_resource example_pool ''quota'' work_date 8)) = resources example_pool \<and>
   allocate_resource example_pool ''review'' work_date 8 = (Inr None, example_pool)"
proof -
  have av: "is_available (Resource_init n t studio_cal) work_date 8" for n t
    by (simp add: is_available_def Resource_init_def work_date_workday in_any_interval_def current_load_def)
  have r1: "fst (allocate_resource example_pool ''quota'' work_date 8) = Inr (Some 0)"
    by (simp add: allocate_resource_def example_pool_eval bucket_def av assign_work_def)
  have r2: "fst (allocate_resource example_pool ''review'' work_date 8) = Inr None"
    by (simp add: allocate_resource_def example_pool_eval bucket_def)
  have l0: "current_load (heap example_pool ! 0) work_date = 0"
    by (simp add: example_pool_eval Resource_init_def current_load_def)
  from allocate_resource_frame[OF example_pool_wf, of "''quota''" work_date 8
      "fst (allocate_resource example_pool ''quota'' work_date 8)"
      "snd (allocate_resource example_pool ''quota'' work_date 8)"]
    allocate_resource_frame[OF example_pool_wf, of "''review''" work_date 8
      "fst (allocate_resource example_pool ''review'' work_date 8)"
      "snd (allocate_resource example_pool ''review'' work_date 8)"]
  show ?thesis
    unfolding r1 r2 using l0 by (simp add: prod_eq_iff r1 r2)
qed

lemma find_unique:
  assumes "r \<in> set xs" "\<forall>x \<in> set xs. x \<noteq> r \<longrightarrow> \<not> P x"
  shows "find P xs = (if P r then Some r else None)"
  using assms by (induction xs) (auto simp: find_None_iff)

text \<open>
  Claim C9, as the code has it. When exactly one resource \<open>r\<close> of the type is
  available for the date and hours, the first of two successive calls with the same
  arguments books and returns \<open>r\<close>. The second returns \<open>None\<close> exactly when
  \<open>r\<close> cannot take the same hours once more, that is when its former load plus twice
  the hours exceeds 8 (so for every request of more than 4 hours on a load that is not
  negative, and for the default of 8); otherwise it books and returns \<open>r\<close> again.
\<close>

theorem allocate_resource_twice:
  assumes "pool_wf pool" "r \<in> set (bucket pool t)" "is_available (heap pool ! r) d hours"
    and "\<forall>x \<in> set (bucket pool t). is_available (heap pool ! x) d hours \<longrightarrow> x = r"
    and "allocate_resource pool t d hours = (res1, pool1)"
    and "allocate_resource pool1 t d hours = (res2, pool2)"
  shows "res1 = Inr (Some r) \<and>
         res2 = (if current_load (heap pool ! r) d + hours + hours \<le> 8 then Inr (Some r) else Inr None) \<and>
         (0 \<le> current_load (heap pool ! r) d \<and> 4 < hours \<longrightarrow> res2 = Inr None)"
proof -
  let ?P = "\<lambda>h x. is_available (h ! x) d hours"
  let ?res = "(heap pool ! r)\<lparr>assigned_hours :=
             (assigned_hours (heap pool ! r))(d \<mapsto> current_load (heap pool ! r) d + hours)\<rparr>"
  have lt: "r < length (heap pool)" using assms(1,2) bucket_refs_valid by blast
  have uniq: "\<forall>x \<in> set (bucket pool t). x \<noteq> r \<longrightarrow> \<not> ?P (heap pool) x"
    using assms(4) by blast
  have f1: "find (?P (heap pool)) (bucket pool t) = Some r"
    using find_unique[OF assms(2) uniq] assms(3) by simp
  have a1: "allocate_resource pool t d hours = (Inr (Some r), pool\<lparr>heap := (heap pool)[r := ?res]\<rparr>)"
    by (simp add: allocate_resource_cases f1)
  with assms(5) have res1: "res1 = Inr (Some r)" and p1: "pool1 = pool\<lparr>heap := (heap pool)[r := ?res]\<rparr>"
    by simp_all
  have b1: "bucket pool1 t = bucket pool t" by (simp add: p1 bucket_def)
  have h1: "heap pool1 ! x = (if x = r then ?res else heap pool ! x)" for x
    using lt by (simp add: p1)
  have other: "\<forall>x \<in> set (bucket pool t). x \<noteq> r \<longrightarrow> \<not> ?P (heap pool1) x"
    using uniq by (simp add: h1)
  have self: "?P (heap pool1) r = (current_load (heap pool ! r) d + hours + hours \<le> 8)"
  proof -
    have "is_workday (calendar (heap pool ! r)) d" "\<not> in_any_interval (res_vacations (heap pool ! r)) d"
      using assms(3) by (auto simp: is_available_def split: if_splits)
    then show ?thesis by (simp add: h1 is_available_def current_load_def)
  qed
  have f2: "find (?P (heap pool1)) (bucket pool1 t) =
          (if current_load (heap pool ! r) d + hours + hours \<le> 8 then Some r else None)"
    unfolding b1 using find_unique[OF assms(2) other] self by simp
  have "fst (allocate_resource pool1 t d hours) =
          (if current_load (heap pool ! r) d + hours + hours \<le> 8 then Inr (Some r) else Inr None)"
    by (simp add: allocate_resource_cases f2)
  with assms(6) have res2: "res2 = (if current_load (heap pool ! r) d + hours + hours \<le> 8 then Inr (Some r) else Inr None)"
    by simp
  have "res2 = Inr None" if "0 \<le> current_load (heap pool ! r) d" "4 < hours"
    using that by (simp add: res2)
  with res1 res2 show ?thesis by blast
qed

theorem allocate_resource_twice_witness:
  "fst (allocate_resource pool_m1 ''quota'' work_date 8) = Inr (Some 0) \<and>
   fst (allocate_resource (snd (allocate_resource pool_m1 ''quota'' work_date 8)) ''quota'' work_date 8) = Inr None"
proof -
  have b: "bucket pool_m1 ''quota'' = [0]" by (simp add: pool_m1_eval bucket_def)
  have av: "is_available (heap pool_m1 ! 0) work_date 8"
    by (simp add: pool_m1_eval is_available_def Resource_init_def work_date_workday in_any_interval_def current_load_def)
  have l0: "current_load (heap pool_m1 ! 0) work_date = 0"
    by (simp add: pool_m1_eval Resource_init_def current_load_def)
  have in0: "0 \<in> set (bucket pool_m1 ''quota'')" by (simp add: b)
  have uniq: "\<forall>x \<in> set (bucket pool_m1 ''quota''). is_available (heap pool_m1 ! x) work_date 8 \<longrightarrow> x = 0"
    by (simp add: b)
  from allocate_resource_twice[OF pool_m1_wf in0 av uniq surjective_pairing surjective_pairing]
  show ?thesis by (simp add: l0)
qed

text \<open>
  With 4 hours the single quota resource of the pool is returned by both calls: a
  resource takes bookings up to 8 hours a day.
\<close>

theorem allocate_resource_twice_counterexample:
  "bucket pool_m1 ''quota'' = [0] \<and> is_available (heap pool_m1 ! 0) work_date 4 \<and>
   fst (allocate_resource pool_m1 ''quota'' work_date 4) = Inr (Some 0) \<and>
   fst (allocate_resource (snd (allocate_resource pool_m1 ''quota'' work_date 4)) ''quota'' work_date 4) = Inr (Some 0)"
  by (simp add: pool_m1_eval bucket_def allocate_resource_def assign_work_def is_available_def
      work_date_workday in_any_interval_def Resource_init_def current_load_def)

section \<open>ResourcePool: registration\<close>

lemma update_fresh: "map_of al k = None \<Longrightarrow> AList.update k v al = al @ [(k, v)]"
  by (induction al) (auto split: if_splits)

lemma update_twice: "AList.update k v (AList.update k w al) = AList.update k v al"
  by (induction al) auto

lemma map_of_update: "map_of (AList.update k v al) = (map_of al)(k \<mapsto> v)"
  by (rule update_conv')

lemma add_resource_by_type:
  "resources_by_type (snd (add_resource pool rid name t)) =
     AList.update t (bucket pool t @ [length (heap pool)]) (resources_by_type pool)"
  by (cases "map_of (resources_by_type pool) t")
     (simp_all add: add_resource_def Let_def bucket_def update_twice map_of_update)

lemma add_resource_fields:
  "fst (add_resource pool rid name t) = length (heap pool)"
  "heap (snd (add_resource pool rid name t)) = heap pool @ [Resource_init name t (pool_calendar pool)]"
  "resources (snd (add_resource pool rid name t)) = AList.update rid (length (heap pool)) (resources pool)"
  "pool_calendar (snd (add_resource pool rid name t)) = pool_calendar pool"
  by (simp_all add: add_resource_def Let_def)

lemma bucket_add_resource:
  "bucket (snd (add_resource pool rid name t)) t' =
     (if t' = t then bucket pool t @ [length (heap pool)] else bucket pool t')"
  by (simp add: bucket_def add_resource_by_type map_of_update)

lemma set_concat_update:
  "set (concat (map snd (AList.update t ((case map_of al t of None \<Rightarrow> [] | Some b \<Rightarrow> b) @ [r]) al))) =
     insert r (set (concat (map snd al)))"
  by (induction al) auto

lemma distinct_concat_update:
  "distinct (concat (map snd al)) \<Longrightarrow> r \<notin> set (concat (map snd al)) \<Longrightarrow>
   distinct (concat (map snd (AList.update t ((case map_of al t of None \<Rightarrow> [] | Some b \<Rightarrow> b) @ [r]) al)))"
proof (induction al)
  case Nil
  then show ?case by simp
next
  case (Cons p ps)
  show ?case
  proof (cases "fst p = t")
    case True
    with Cons.prems show ?thesis by auto
  next
    case False
    let ?u = "AList.update t ((case map_of ps t of None \<Rightarrow> [] | Some b \<Rightarrow> b) @ [r]) ps"
    have "distinct (concat (map snd ?u))" using Cons by simp
    moreover have "set (concat (map snd ?u)) = insert r (set (concat (map snd ps)))"
      by (rule set_concat_update)
    moreover have "distinct (snd p)" "set (snd p) \<inter> insert r (set (concat (map snd ps))) = {}"
      using Cons.prems by auto
    ultimately have "distinct (snd p @ concat (map snd ?u))" by simp
    with False show ?thesis by simp
  qed
qed

lemma type_index_refs_add:
  "set (type_index_refs (snd (add_resource pool rid name t))) =
     insert (length (heap pool)) (set (type_index_refs pool))"
  unfolding type_index_refs_def add_resource_by_type bucket_def by (rule set_concat_update)

lemma add_resource_fresh_wf:
  assumes "pool_wf pool" "map_of (resources pool) rid = None"
  shows "pool_wf (snd (add_resource pool rid name t))"
proof -
  let ?p = "snd (add_resource pool rid name t)"
  let ?r = "length (heap pool)"
  have res: "resources ?p = resources pool @ [(rid, ?r)]"
    using assms(2) by (simp add: add_resource_fields update_fresh)
  have old_id: "\<forall>x \<in> set (id_index_refs pool). x < ?r" and old_ty: "\<forall>x \<in> set (type_index_refs pool). x < ?r"
    using assms(1) by (auto simp: pool_wf_def list_all_iff)
  have "rid \<notin> fst ` set (resources pool)" using assms(2) by (simp add: map_of_eq_None_iff)
  then have d1: "distinct (map fst (resources ?p))"
    using assms(1) by (simp add: res pool_wf_def)
  have d2: "distinct (map fst (resources_by_type ?p))"
    using assms(1) by (simp add: add_resource_by_type pool_wf_def distinct_update)
  have d3: "distinct (id_index_refs ?p)"
    using assms(1) old_id by (auto simp: res id_index_refs_def pool_wf_def)
  have "?r \<notin> set (type_index_refs pool)" using old_ty by auto
  then have d4: "distinct (type_index_refs ?p)"
    using assms(1) unfolding type_index_refs_def add_resource_by_type bucket_def pool_wf_def
    by (intro distinct_concat_update) simp_all
  have v1: "list_all (\<lambda>x. x < length (heap ?p)) (id_index_refs ?p)"
    using old_id by (auto simp: res id_index_refs_def add_resource_fields(2) list_all_iff)
  have v2: "list_all (\<lambda>x. x < length (heap ?p)) (type_index_refs ?p)"
    using old_ty by (auto simp: list_all_iff type_index_refs_add add_resource_fields(2))
  show ?thesis unfolding pool_wf_def using d1 d2 d3 d4 v1 v2 by simp
qed

lemma add_resource_fresh_inv:
  assumes "index_inv pool" "map_of (resources pool) rid = None"
  shows "index_inv (snd (add_resource pool rid name t))"
  using assms
  by (simp add: index_inv_def type_index_refs_add id_index_refs_def add_resource_fields update_fresh)

text \<open>
  \<open>pool_wf\<close> holds of the empty pool and is kept by \<open>add_resource\<close>, whatever
  the id, and by \<open>allocate_resource\<close>: it holds of every pool the program builds.
\<close>

lemma set_snd_update: "set (map snd (AList.update k v al)) \<subseteq> insert v (set (map snd al))"
  by (induction al) auto

lemma distinct_snd_update:
  "distinct (map snd al) \<Longrightarrow> v \<notin> set (map snd al) \<Longrightarrow> distinct (map snd (AList.update k v al))"
proof (induction al)
  case Nil
  then show ?case by simp
next
  case (Cons p ps)
  have "set (map snd (AList.update k v ps)) \<subseteq> insert v (set (map snd ps))"
    by (rule set_snd_update)
  with Cons show ?case by auto
qed

lemma add_resource_wf:
  assumes "pool_wf pool"
  shows "pool_wf (snd (add_resource pool rid name t))"
proof -
  let ?p = "snd (add_resource pool rid name t)"
  let ?r = "length (heap pool)"
  have old_id: "\<forall>x \<in> set (id_index_refs pool). x < ?r" and old_ty: "\<forall>x \<in> set (type_index_refs pool). x < ?r"
    using assms by (auto simp: pool_wf_def list_all_iff)
  have fresh: "?r \<notin> set (map snd (resources pool))" "?r \<notin> set (type_index_refs pool)"
    using old_id old_ty by (auto simp: id_index_refs_def)
  have sub: "set (id_index_refs ?p) \<subseteq> insert ?r (set (id_index_refs pool))"
    unfolding id_index_refs_def add_resource_fields(3) by (rule set_snd_update)
  have d1: "distinct (map fst (resources ?p))"
    using assms by (simp add: add_resource_fields(3) pool_wf_def distinct_update)
  have d2: "distinct (map fst (resources_by_type ?p))"
    using assms by (simp add: add_resource_by_type pool_wf_def distinct_update)
  have d3: "distinct (id_index_refs ?p)"
    using assms fresh(1) unfolding id_index_refs_def add_resource_fields(3) pool_wf_def
    by (intro distinct_snd_update) simp_all
  have d4: "distinct (type_index_refs ?p)"
    using assms fresh(2) unfolding type_index_refs_def add_resource_by_type bucket_def pool_wf_def
    by (intro distinct_concat_update) simp_all
  have v1: "list_all (\<lambda>x. x < length (heap ?p)) (id_index_refs ?p)"
  proof -
    have "x < Suc ?r" if "x \<in> set (id_index_refs ?p)" for x
    proof -
      from that sub have "x = ?r \<or> x \<in> set (id_index_refs pool)" by blast
      with old_id show ?thesis by auto
    qed
    then show ?thesis by (simp add: add_resource_fields(2) list_all_iff)
  qed
  have v2: "list_all (\<lambda>x. x < length (heap ?p)) (type_index_refs ?p)"
    using old_ty by (auto simp: list_all_iff type_index_refs_add add_resource_fields(2))
  show ?thesis unfolding pool_wf_def using d1 d2 d3 d4 v1 v2 by simp
qed

lemma allocate_resource_wf:
  assumes "pool_wf pool"
  shows "pool_wf (snd (allocate_resource pool t d hours))"
  using assms
  by (cases "find (\<lambda>r. is_available (heap pool ! r) d hours) (bucket pool t)")
     (simp_all add: allocate_resource_cases pool_wf_def id_index_refs_def type_index_refs_def)

lemma pool_wf_init: "pool_wf (ResourcePool_init cal)" "index_inv (ResourcePool_init cal)"
  by (simp_all add: pool_wf_def index_inv_def ResourcePool_init_def id_index_refs_def type_index_refs_def)

text \<open>
  Claim C7, as the code has it. \<open>add_resource\<close> has no check of the id and cannot
  fail. With an id that is not registered yet, it stores the new resource, registers it
  under the id and at the end of the bucket of its type, leaves every other entry of
  both indices and every other object as they were, and keeps the invariant that the
  two indices hold the same resources.
\<close>

theorem add_resource_fresh_id:
  assumes "pool_wf pool" "index_inv pool" "map_of (resources pool) rid = None"
    and "add_resource pool rid name t = (r, pool')"
  shows "map_of (resources pool') rid = Some r \<and> r \<in> set (bucket pool' t) \<and>
         r < length (heap pool') \<and> heap pool' ! r = Resource_init name t (pool_calendar pool) \<and>
         index_inv pool' \<and> pool_wf pool' \<and>
         (\<forall>k. k \<noteq> rid \<longrightarrow> map_of (resources pool') k = map_of (resources pool) k) \<and>
         (\<forall>t'. t' \<noteq> t \<longrightarrow> bucket pool' t' = bucket pool t') \<and>
         bucket pool' t = bucket pool t @ [r] \<and>
         (\<forall>x < length (heap pool). heap pool' ! x = heap pool ! x)"
proof -
  have r: "r = length (heap pool)" and p: "pool' = snd (add_resource pool rid name t)"
    using assms(4) add_resource_fields(1)[of pool rid name t] by simp_all
  have "index_inv pool'" "pool_wf pool'"
    unfolding p using assms(1-3) by (simp_all add: add_resource_fresh_inv add_resource_fresh_wf)
  moreover have "map_of (resources pool') k = (if k = rid then Some r else map_of (resources pool) k)" for k
    by (simp add: p r add_resource_fields map_of_update)
  moreover have "heap pool' ! r = Resource_init name t (pool_calendar pool)" "r < length (heap pool')"
    "\<forall>x < length (heap pool). heap pool' ! x = heap pool ! x"
    by (simp_all add: p r add_resource_fields nth_append)
  moreover have "bucket pool' t' = (if t' = t then bucket pool t @ [r] else bucket pool t')" for t'
    by (simp add: p r bucket_add_resource)
  ultimately show ?thesis by simp
qed

theorem add_resource_fresh_id_witness:
  "map_of (resources pool_m1) ''m1'' = Some 0 \<and> bucket pool_m1 ''quota'' = [0] \<and>
   index_inv pool_m1 \<and> pool_wf pool_m1"
proof -
  have a: "add_resource (ResourcePool_init studio_cal) ''m1'' ''Modeling Artist'' ''quota'' = (0, pool_m1)"
    by (simp add: pool_m1_def add_resource_def Let_def ResourcePool_init_def)
  have b: "map_of (resources (ResourcePool_init studio_cal)) ''m1'' = None"
    by (simp add: ResourcePool_init_def)
  have c: "bucket (ResourcePool_init studio_cal) ''quota'' = []"
    by (simp add: bucket_def ResourcePool_init_def)
  from add_resource_fresh_id[OF pool_wf_init(1) pool_wf_init(2) b a] show ?thesis
    by (simp add: c)
qed

text \<open>
  A second registration under the id \<open>m1\<close> does not fail: it returns a new object,
  replaces the entry of the id index and extends the bucket, so that the first object
  stays in the type index only and the invariant is lost.
\<close>

theorem add_resource_duplicate_id_counterexample:
  "map_of (resources pool_m1) ''m1'' = Some 0 \<and> index_inv pool_m1 \<and>
   (case add_resource pool_m1 ''m1'' ''Layout Artist'' ''quota'' of
      (r, pool') \<Rightarrow>
        r = 1 \<and> resources pool' = [(''m1'', 1)] \<and> resources_by_type pool' = [(''quota'', [0, 1])] \<and>
        resources pool' \<noteq> resources pool_m1 \<and>
        resources_by_type pool' \<noteq> resources_by_type pool_m1 \<and> \<not> index_inv pool')"
  by (simp add: pool_m1_def add_resource_def ResourcePool_init_def Let_def bucket_def
      index_inv_def id_index_refs_def type_index_refs_def)

section \<open>ResourcePool: utilization\<close>

lemma fold_add_sum_list:
  "fold (\<lambda>r acc. acc + f r) xs (a::int) = a + sum_list (map f xs)"
  by (induction xs arbitrary: a) simp_all

lemma daily_assigned_sum:
  "daily_assigned pool current =
     sum_list (map (\<lambda>r. current_load (heap pool ! r) current) (id_index_refs pool))"
  by (simp add: daily_assigned_def id_index_refs_def fold_add_sum_list)

lemma get_utilization_loop_totals:
  assumes "0 \<le> current" "end_date + timedelta_days 1 \<le> MAX_DATETIME"
  shows "get_utilization_loop pool current end_date c a =
     Inr (c + daily_capacity pool * int (length (workdays_in_range (pool_calendar pool) current end_date)),
          a + sum_list (map (daily_assigned pool) (workdays_in_range (pool_calendar pool) current end_date)))"
  using assms
proof (induction pool current end_date c a rule: get_utilization_loop.induct)
  case (1 pool current end_date c a)
  show ?case
  proof (cases "current \<le> end_date")
    case False
    then show ?thesis
      by (simp add: get_utilization_loop.simps[of pool current] days_from.simps[of current]
          workdays_in_range_def)
  next
    case True
    let ?next = "current + timedelta_days 1"
    have ok: "0 \<le> ?next \<and> ?next \<le> MAX_DATETIME" "0 \<le> ?next"
      using True "1.prems" by (simp_all add: timedelta_days_def US_PER_DAY_def)
    have days: "workdays_in_range (pool_calendar pool) current end_date =
        (if is_workday (pool_calendar pool) current then [current] else []) @
        workdays_in_range (pool_calendar pool) ?next end_date"
      using True by (simp add: workdays_in_range_def days_from.simps[of current])
    show ?thesis
    proof (cases "is_workday (pool_calendar pool) current")
      case wd: True
      have "get_utilization_loop pool current end_date c a =
          get_utilization_loop pool ?next end_date (c + daily_capacity pool) (a + daily_assigned pool current)"
        using True wd ok(1) by (simp add: get_utilization_loop.simps[of pool current])
      also have "\<dots> = Inr (c + daily_capacity pool +
            daily_capacity pool * int (length (workdays_in_range (pool_calendar pool) ?next end_date)),
          a + daily_assigned pool current +
            sum_list (map (daily_assigned pool) (workdays_in_range (pool_calendar pool) ?next end_date)))"
        using "1.IH"[OF True _ refl ok(1) ok(2) "1.prems"(2)] wd by simp
      finally show ?thesis using wd by (simp add: days algebra_simps)
    next
      case nwd: False
      have "get_utilization_loop pool current end_date c a =
          get_utilization_loop pool ?next end_date c a"
        using True nwd ok(1) by (simp add: get_utilization_loop.simps[of pool current])
      also have "\<dots> = Inr (c +
            daily_capacity pool * int (length (workdays_in_range (pool_calendar pool) ?next end_date)),
          a + sum_list (map (daily_assigned pool) (workdays_in_range (pool_calendar pool) ?next end_date)))"
        using "1.IH"[OF True _ refl ok(1) ok(2) "1.prems"(2)] nwd by simp
      finally show ?thesis using nwd by (simp add: days)
    qed
  qed
qed

lemma daily_assigned_bounds:
  assumes "\<forall>r \<in> set (id_index_refs pool). 0 \<le> current_load (heap pool ! r) d \<and> current_load (heap pool ! r) d \<le> 8"
  shows "0 \<le> daily_assigned pool d \<and> daily_assigned pool d \<le> 8 * int (length (id_index_refs pool))"
proof -
  have "0 \<le> sum_list (map f xs) \<and> sum_list (map f xs) \<le> 8 * int (length xs)"
    if "\<forall>x \<in> set xs. 0 \<le> f x \<and> f x \<le> (8::int)" for f and xs :: "nat list"
    using that by (induction xs) auto
  from this[of "id_index_refs pool" "\<lambda>r. current_load (heap pool ! r) d"] assms
  show ?thesis by (simp add: daily_assigned_sum)
qed

lemma sum_list_bounds:
  assumes "\<forall>x \<in> set xs. 0 \<le> f x \<and> f x \<le> (c::int)"
  shows "0 \<le> sum_list (map f xs) \<and> sum_list (map f xs) \<le> c * int (length xs)"
  using assms by (induction xs) (auto simp: algebra_simps)

lemma days_from_single: "days_from work_date work_date = [work_date]"
proof -
  have "\<not> work_date + timedelta_days 1 \<le> work_date"
    by (simp add: timedelta_days_def US_PER_DAY_def)
  then show ?thesis
    by (simp add: days_from.simps[of work_date] days_from.simps[of "work_date + timedelta_days 1"])
qed

lemma booked_pool_loads:
  "map (\<lambda>r. current_load (heap booked_pool ! r) work_date) [0, 1, 2, 3] = [8, 8, 8, 8]"
  "resources booked_pool = resources example_pool"
  "resources_by_type booked_pool = resources_by_type example_pool"
  "pool_calendar booked_pool = studio_cal"
  by (simp_all add: booked_pool_def allocate_resource_def example_pool_eval bucket_def
      is_available_def assign_work_def Resource_init_def work_date_workday in_any_interval_def
      current_load_def)

text \<open>
  Claim C8, as the code has it. For a range that starts at a valid date and ends before
  the last day of the \<open>datetime\<close> range, \<open>get_utilization\<close> returns the total of
  the assigned hours of all registered resources over the working days of the range,
  divided by the total capacity (8 hours for each quota resource and working day), and
  exactly 0 when that capacity is 0, as it is without quota resources or without working
  days. The result lies between 0 and 1 when every registered resource is a quota
  resource with loads between 0 and 8; resources of other types add to the assigned
  hours and not to the capacity.
\<close>

theorem get_utilization_ratio:
  assumes "0 \<le> start_date" "end_date + timedelta_days 1 \<le> MAX_DATETIME"
  shows "(let days = workdays_in_range (pool_calendar pool) start_date end_date;
              total_capacity = daily_capacity pool * int (length days);
              total_assigned = sum_list (map (daily_assigned pool) days)
          in get_utilization pool start_date end_date =
               Inr (if total_capacity \<noteq> 0 then of_int total_assigned / of_int total_capacity else 0) \<and>
             (bucket pool ''quota'' = [] \<or> days = [] \<longrightarrow> get_utilization pool start_date end_date = Inr 0) \<and>
             (distinct (id_index_refs pool) \<and> set (id_index_refs pool) \<subseteq> set (bucket pool ''quota'') \<and>
              (\<forall>r \<in> set (id_index_refs pool). \<forall>d.
                  0 \<le> current_load (heap pool ! r) d \<and> current_load (heap pool ! r) d \<le> 8) \<longrightarrow>
              (\<exists>u. get_utilization pool start_date end_date = Inr u \<and> 0 \<le> u \<and> u \<le> 1)))"
proof -
  let ?days = "workdays_in_range (pool_calendar pool) start_date end_date"
  let ?cap = "daily_capacity pool * int (length ?days)"
  let ?asg = "sum_list (map (daily_assigned pool) ?days)"
  let ?u = "if ?cap \<noteq> 0 then of_int ?asg / of_int ?cap else (0::rat)"
  have res: "get_utilization pool start_date end_date = Inr ?u"
    by (simp add: get_utilization_def get_utilization_loop_totals[OF assms])
  have zero: "get_utilization pool start_date end_date = Inr 0" if "bucket pool ''quota'' = [] \<or> ?days = []"
    using that unfolding res by (auto simp: daily_capacity_def)
  have bound: "0 \<le> ?u \<and> ?u \<le> 1"
    if h: "distinct (id_index_refs pool) \<and> set (id_index_refs pool) \<subseteq> set (bucket pool ''quota'') \<and>
              (\<forall>r \<in> set (id_index_refs pool). \<forall>d.
                  0 \<le> current_load (heap pool ! r) d \<and> current_load (heap pool ! r) d \<le> 8)"
  proof -
    have "length (id_index_refs pool) = card (set (id_index_refs pool))"
      using h by (simp add: distinct_card)
    also have "\<dots> \<le> card (set (bucket pool ''quota''))"
      using h by (intro card_mono) simp_all
    also have "\<dots> \<le> length (bucket pool ''quota'')" by (rule card_length)
    finally have len: "8 * int (length (id_index_refs pool)) \<le> daily_capacity pool"
      by (simp add: daily_capacity_def)
    have "0 \<le> daily_assigned pool d \<and> daily_assigned pool d \<le> daily_capacity pool" for d
    proof -
      have "\<forall>r \<in> set (id_index_refs pool).
              0 \<le> current_load (heap pool ! r) d \<and> current_load (heap pool ! r) d \<le> 8"
        using h by blast
      from daily_assigned_bounds[OF this] len show ?thesis by linarith
    qed
    then have "\<forall>d \<in> set ?days. 0 \<le> daily_assigned pool d \<and> daily_assigned pool d \<le> daily_capacity pool"
      by blast
    from sum_list_bounds[OF this] have asg: "0 \<le> ?asg" "?asg \<le> ?cap" by simp_all
    show ?thesis
    proof (cases "?cap = 0")
      case True
      then show ?thesis by simp
    next
      case False
      with asg have pos: "0 < ?cap" by linarith
      define ar cr where "ar = (of_int ?asg :: rat)" and "cr = (of_int ?cap :: rat)"
      have "ar \<le> cr" "0 \<le> ar" "0 < cr"
        unfolding ar_def cr_def using asg pos
        by (simp_all only: of_int_le_iff of_int_0_le_iff of_int_0_less_iff)
      then have "0 \<le> ar / cr \<and> ar / cr \<le> 1"
        by (simp add: divide_le_eq)
      then have "0 \<le> (of_int ?asg :: rat) / of_int ?cap \<and> (of_int ?asg :: rat) / of_int ?cap \<le> 1"
        unfolding ar_def cr_def .
      with False show ?thesis by simp
    qed
  qed
  show ?thesis
    unfolding Let_def using res zero bound by blast
qed

theorem get_utilization_ratio_witness:
  "get_utilization (snd (allocate_resource pool_m1 ''quota'' work_date 8)) work_date work_date = Inr 1 \<and>
   get_utilization (ResourcePool_init studio_cal) work_date work_date = Inr 0"
proof -
  let ?p = "snd (allocate_resource pool_m1 ''quota'' work_date 8)"
  have a: "0 \<le> work_date" "work_date + timedelta_days 1 \<le> MAX_DATETIME"
    by (simp_all add: work_date_def timedelta_days_def US_PER_DAY_def MAX_DATETIME_def)
  have p: "pool_calendar ?p = studio_cal" "resources ?p = [(''m1'', 0)]"
    "resources_by_type ?p = [(''quota'', [0])]" "current_load (heap ?p ! 0) work_date = 8"
    by (simp_all add: allocate_resource_def pool_m1_eval bucket_def is_available_def assign_work_def
        Resource_init_def work_date_workday in_any_interval_def current_load_def)
  have days: "workdays_in_range studio_cal work_date work_date = [work_date]"
    by (simp add: workdays_in_range_def days_from_single work_date_workday)
  have cap: "daily_capacity ?p = 8" by (simp add: daily_capacity_def bucket_def p)
  have asg: "daily_assigned ?p work_date = 8" by (simp add: daily_assigned_def p)
  have b: "bucket (ResourcePool_init studio_cal) ''quota'' = []"
    by (simp add: bucket_def ResourcePool_init_def)
  from get_utilization_ratio[OF a, of ?p]
  have "get_utilization ?p work_date work_date = Inr 1"
    by (simp add: Let_def p(1) days cap asg)
  moreover from get_utilization_ratio[OF a, of "ResourcePool_init studio_cal", unfolded Let_def] b
  have "get_utilization (ResourcePool_init studio_cal) work_date work_date = Inr 0"
    by blast
  ultimately show ?thesis by simp
qed

text \<open>
  With the three quota resources and the support resource of the example pool each booked
  for 8 hours on one working day, 32 hours are assigned against a capacity of 24.
\<close>

theorem get_utilization_above_one_counterexample:
  "get_utilization booked_pool work_date work_date = Inr (4 / 3) \<and> \<not> (4 / 3 \<le> (1::rat))"
proof -
  have ok: "0 \<le> work_date + timedelta_days 1 \<and> work_date + timedelta_days 1 \<le> MAX_DATETIME"
    by (simp add: work_date_def timedelta_days_def US_PER_DAY_def MAX_DATETIME_def)
  have gt: "\<not> work_date + timedelta_days 1 \<le> work_date"
    by (simp add: timedelta_days_def US_PER_DAY_def)
  have cap: "daily_capacity booked_pool = 24"
    by (simp add: daily_capacity_def bucket_def booked_pool_loads example_pool_eval)
  have asg: "daily_assigned booked_pool work_date = 32"
    using booked_pool_loads(1) by (simp add: daily_assigned_def booked_pool_loads(2) example_pool_eval)
  have "get_utilization_loop booked_pool work_date work_date 0 0 = Inr (24, 32)"
    using ok gt
    by (simp add: get_utilization_loop.simps[of booked_pool work_date]
        get_utilization_loop.simps[of booked_pool "work_date + timedelta_days 1"]
        booked_pool_loads(4) work_date_workday cap asg)
  then show ?thesis by (simp add: get_utilization_def)
qed

section \<open>AnimSimulator: the process of an asset\<close>

text \<open>
  The conflict resolver reports a resolution for every asset and stage: its list of
  pending tasks is never empty. So a stage without a resource is never retried; the loop
  goes on with the next stage, at the same simulated time and with the pool as the failed
  allocation left it.
\<close>

lemma resolve_conflict_always: "resolve_conflict asset_id st"
  by (simp add: resolve_conflict_def get_pending_tasks_def)

lemma stage_loop_no_resource:
  assumes "s \<noteq> []" "DAList.lookup (stages (ctx_workflow ctx)) s = Some sd" "default_bid sd = Some dflt"
    and "stage_order (ctx_workflow ctx) = first_stage # rest" "s \<noteq> first_stage \<or> waited"
    and "stage_resource_type sd = Some rtype"
    and "sim_date (ctx_current_date ctx) (ctx_now ctx) = Inr start_t"
    and "allocate_resource pool rtype start_t
           (case map_of (level_bids sd) (ctx_complexity ctx) of None \<Rightarrow> dflt | Some b \<Rightarrow> b) = (Inr None, pool')"
    and "get_next_stage (ctx_workflow ctx) s = Inr next_stage"
  shows "stage_loop ctx waited (Some s) pool = stage_loop ctx False next_stage pool'"
proof -
  have "\<not> (s = first_stage \<and> \<not> waited)" using assms(5) by blast
  then show ?thesis
    by (subst stage_loop.simps) (auto simp: assms(1-4,6-9) resolve_conflict_always)
qed

subsection \<open>The example runs\<close>

lemma add_resource_eval:
  "snd (add_resource \<lparr>pool_calendar = c, heap = h, resources = rs, resources_by_type = bt\<rparr> rid name t) =
     \<lparr>pool_calendar = c, heap = h @ [Resource_init name t c],
      resources = AList.update rid (length h) rs,
      resources_by_type = AList.update t ((case map_of bt t of None \<Rightarrow> [] | Some b \<Rightarrow> b) @ [length h]) bt\<rparr>"
  by (cases "map_of bt t") (simp_all add: add_resource_def Let_def bucket_def update_twice map_of_update)

lemma studio_pool_eval:
  "studio_pool = \<lparr>pool_calendar = studio_cal,
      heap = [Resource_init ''Modeling Artist'' ''quota'' studio_cal,
              Resource_init ''Modeling Artist'' ''quota'' studio_cal,
              Resource_init ''Layout Artist'' ''quota'' studio_cal,
              Resource_init ''Layout Artist'' ''quota'' studio_cal,
              Resource_init ''Animation Artist'' ''quota'' studio_cal,
              Resource_init ''Animation Artist'' ''quota'' studio_cal,
              Resource_init ''Animation Artist'' ''quota'' studio_cal,
              Resource_init ''Support Technician'' ''support'' studio_cal],
      resources = [(''m1'', 0), (''m2'', 1), (''l1'', 2), (''l2'', 3), (''a1'', 4), (''a2'', 5),
                   (''a3'', 6), (''s1'', 7)],
      resources_by_type = [(''quota'', [0, 1, 2, 3, 4, 5, 6]), (''support'', [7])]\<rparr>"
  by (simp add: studio_pool_def register_resources_def ResourcePool_init_def Let_def add_resource_eval)

lemma sunday_evening_closed: "\<not> is_workday studio_cal sunday_evening"
  by (simp add: is_workday_def studio_cal_def sunday_evening_def weekday_def US_PER_DAY_def)

lemma sunday_allocate: "allocate_resource studio_pool ''quota'' sunday_evening hours = (Inr None, studio_pool)"
  by (simp add: allocate_resource_cases studio_pool_eval bucket_def is_available_def Resource_init_def
      sunday_evening_closed)

lemma sunday_sim_date: "sim_date clock_1s_before 1 = Inr sunday_evening"
  by (simp add: sim_date_def timedelta_of_days_def py_round_def dt_add_def
      clock_1s_before_def sunday_evening_def US_PER_DAY_def MAX_DATETIME_def Let_def)

lemma asset_workflow_stages:
  "DAList.impl_of (stages asset_workflow) =
     [(''modelado'', \<lparr>default_bid = Some 3, level_bids = [(''alta'', 5), (''baja'', 2)], stage_resource_type = Some ''quota''\<rparr>),
      (''layout'', \<lparr>default_bid = Some 2, level_bids = [(''alta'', 3), (''baja'', 1)], stage_resource_type = Some ''quota''\<rparr>),
      (''anim'', \<lparr>default_bid = Some 4, level_bids = [(''alta'', 8), (''baja'', 4)], stage_resource_type = Some ''quota''\<rparr>)]"
  by (simp add: asset_workflow_def update.rep_eq empty.rep_eq)

lemma asset_workflow_order: "stage_order asset_workflow = [''modelado'', ''layout'', ''anim'']"
  by (simp add: stage_order_def asset_workflow_stages)

lemma asset_workflow_next:
  "get_next_stage asset_workflow ''modelado'' = Inr (Some ''layout'')"
  "get_next_stage asset_workflow ''layout'' = Inr (Some ''anim'')"
  "get_next_stage asset_workflow ''anim'' = Inr None"
  by (simp_all add: get_next_stage_def asset_workflow_order)

lemma sunday_skip:
  "stage_loop sunday_ctx True (Some ''modelado'') studio_pool = stage_loop sunday_ctx False (Some ''layout'') studio_pool"
  "stage_loop sunday_ctx False (Some ''layout'') studio_pool = stage_loop sunday_ctx False (Some ''anim'') studio_pool"
  "stage_loop sunday_ctx False (Some ''anim'') studio_pool = stage_loop sunday_ctx False None studio_pool"
proof -
  have c: "ctx_workflow sunday_ctx = asset_workflow" "ctx_current_date sunday_ctx = clock_1s_before"
    "ctx_now sunday_ctx = 1" "ctx_complexity sunday_ctx = ''alta''"
    by (simp_all add: sunday_ctx_def)
  show "stage_loop sunday_ctx True (Some ''modelado'') studio_pool = stage_loop sunday_ctx False (Some ''layout'') studio_pool"
    by (rule stage_loop_no_resource[where rtype = "''quota''" and start_t = sunday_evening
          and first_stage = "''modelado''" and rest = "[''layout'', ''anim'']"
          and sd = "the (DAList.lookup (stages asset_workflow) ''modelado'')"
          and dflt = "the (default_bid (the (DAList.lookup (stages asset_workflow) ''modelado'')))"])
       (simp_all add: c asset_workflow_order asset_workflow_next lookup.rep_eq asset_workflow_stages
          sunday_sim_date sunday_allocate)
  show "stage_loop sunday_ctx False (Some ''layout'') studio_pool = stage_loop sunday_ctx False (Some ''anim'') studio_pool"
    by (rule stage_loop_no_resource[where rtype = "''quota''" and start_t = sunday_evening
          and first_stage = "''modelado''" and rest = "[''layout'', ''anim'']"
          and sd = "the (DAList.lookup (stages asset_workflow) ''layout'')"
          and dflt = "the (default_bid (the (DAList.lookup (stages asset_workflow) ''layout'')))"])
       (simp_all add: c asset_workflow_order asset_workflow_next lookup.rep_eq asset_workflow_stages
          sunday_sim_date sunday_allocate)
  show "stage_loop sunday_ctx False (Some ''anim'') studio_pool = stage_loop sunday_ctx False None studio_pool"
    by (rule stage_loop_no_resource[where rtype = "''quota''" and start_t = sunday_evening
          and first_stage = "''modelado''" and rest = "[''layout'', ''anim'']"
          and sd = "the (DAList.lookup (stages asset_workflow) ''anim'')"
          and dflt = "the (default_bid (the (DAList.lookup (stages asset_workflow) ''anim'')))"])
       (simp_all add: c asset_workflow_order asset_workflow_next lookup.rep_eq asset_workflow_stages
          sunday_sim_date sunday_allocate)
qed




text \<open>
  Claim C1 on the run of \<open>app.py\<close>'s parameters that starts two seconds before
  the creative input date of \<open>asset_caballo\<close>. The bid of \<open>modelado\<close> at complexity
  \<open>alta\<close> is 5 hours. The process holds \<open>bid_hours * 24 = 120\<close> units of
  \<open>env.now\<close>, and \<open>env.now\<close> is read as days where the timestamps are computed
  (\<open>timedelta(days=self.env.now)\<close>): the event of the stage ends 120 simulated days
  after its start, not 5, and its duration is 2880 hours.
\<close>

theorem stage_held_24_days_per_bid_hour:
  "get_stage_bid app_params ''asset_workflow'' ''modelado'' ''alta'' = Inr 5 \<and>
   (case simulate 100 app_params clock_2s_before ''proj_ep1'' [''asset_caballo''] 365 of
      Some (Inr (e # es)) \<Rightarrow>
        item_id e = ''asset_caballo'' \<and> stage e = ''modelado'' \<and>
        end_time e - start_time e = timedelta_days (24 * 5) \<and>
        end_time e - start_time e \<noteq> timedelta_days 5 \<and>
        duration e = 2880
    | _ \<Rightarrow> False)"
  by code_simp

text \<open>
  Claim C3 on the run that starts one second before the creative input date. The
  process is resumed at 2026-03-01T23:59:59 of simulated time, a Sunday: no quota
  resource is available for \<open>modelado\<close> and nothing is booked, the resolver reports a
  resolution, and the loop goes on with \<open>layout\<close> and then \<open>anim\<close> in the same
  way. The process ends in the same resumption without an event and without a second
  allocation attempt for any stage, and the run ends with an empty event list.
\<close>

theorem stage_skipped_without_event_or_retry:
  "allocate_resource studio_pool ''quota'' sunday_evening 5 = (Inr None, studio_pool) \<and>
   resolve_conflict ''asset_caballo'' ''modelado'' \<and>
   stage_loop sunday_ctx True (Some ''modelado'') studio_pool =
     stage_loop sunday_ctx False (Some ''layout'') studio_pool \<and>
   process_resume sunday_ctx (AfterInputWait ''modelado'') studio_pool [] = (Done, studio_pool, []) \<and>
   simulate 100 app_params clock_1s_before ''proj_ep1'' [''asset_caballo''] 365 = Some (Inr [])"
proof -
  have "stage_loop sunday_ctx False None studio_pool = (Done, studio_pool)"
    by (simp add: stage_loop.simps)
  then have "process_resume sunday_ctx (AfterInputWait ''modelado'') studio_pool [] = (Done, studio_pool, [])"
    by (simp add: process_resume_def sunday_skip)
  moreover have "simulate 100 app_params clock_1s_before ''proj_ep1'' [''asset_caballo''] 365 = Some (Inr [])"
    by code_simp
  ultimately show ?thesis
    by (simp add: sunday_allocate resolve_conflict_always sunday_skip(1))
qed

section \<open>AnimSimulator: reproducibility of a run\<close>





subsection \<open>Every run ends\<close>



























end
